theory Spec2Isabelle
  imports Main
begin

section \<open>Python values as loaded by \<^verbatim>\<open>yaml.safe_load\<close> and \<^verbatim>\<open>json.load\<close>\<close>

text \<open>
  A loaded document is a tree of mappings, sequences and scalars. A mapping keeps its
  insertion order (\<^verbatim>\<open>properties.items()\<close> iterates in document key order), so it is an
  association list; keys are strings. A string is a list of bytes, so a length counts
  bytes. Floats, dates and YAML aliases that tie a cyclic structure are outside this
  model.
\<close>

datatype json =
    JNull
  | JBool bool
  | JInt int
  | JStr string
  | JList "json list"
  | JDict "(string \<times> json) list"

text \<open>The exceptions the walker can raise on a value of the wrong shape, and the two that
  \<^verbatim>\<open>Path.resolve()\<close> raises on a path it cannot resolve: \<^verbatim>\<open>ValueError\<close> on a name with
  an embedded null byte, \<^verbatim>\<open>RuntimeError\<close> on a loop of symbolic links.\<close>

datatype py_error = TypeError | AttributeError | KeyError | ValueError | RuntimeError

subsection \<open>String helpers\<close>

definition startswith :: "string \<Rightarrow> string \<Rightarrow> bool" where
  "startswith s p = (take (length p) s = p)"

fun is_substring :: "string \<Rightarrow> string \<Rightarrow> bool" where
  "is_substring k [] = (k = [])"
| "is_substring k (c # cs) = (startswith (c # cs) k \<or> is_substring k cs)"

text \<open>\<^verbatim>\<open>s.split(c)\<close> for a one-character separator: never an empty list.\<close>

fun split_on :: "char \<Rightarrow> string \<Rightarrow> string list" where
  "split_on c [] = [[]]"
| "split_on c (x # xs) =
     (if x = c then [] # split_on c xs
      else (case split_on c xs of
              [] \<Rightarrow> [[x]]
            | w # ws \<Rightarrow> (x # w) # ws))"

text \<open>\<^verbatim>\<open>ref.split('#/', 1)\<close>: the text before and after the first \<^verbatim>\<open>#/\<close>, or
  \<open>None\<close> when \<^verbatim>\<open>'#/' in ref\<close> is false.\<close>

fun split_fragment :: "string \<Rightarrow> (string \<times> string) option" where
  "split_fragment [] = None"
| "split_fragment (c # cs) =
     (if startswith (c # cs) ''#/'' then Some ([], drop 2 (c # cs))
      else (case split_fragment cs of
              None \<Rightarrow> None
            | Some (a, b) \<Rightarrow> Some (c # a, b)))"

fun join :: "string \<Rightarrow> string list \<Rightarrow> string" where
  "join sep [] = []"
| "join sep [x] = x"
| "join sep (x # y # ys) = x @ sep @ join sep (y # ys)"

subsection \<open>\<^verbatim>\<open>str\<close> and \<^verbatim>\<open>repr\<close>\<close>

definition digit_char :: "nat \<Rightarrow> char" where
  "digit_char d = ''0123456789abcdef'' ! d"

fun str_nat :: "nat \<Rightarrow> string" where
  "str_nat n = (if n < 10 then [digit_char n] else str_nat (n div 10) @ [digit_char (n mod 10)])"

declare str_nat.simps [simp del]

definition str_int :: "int \<Rightarrow> string" where
  "str_int i = (if i < 0 then CHR ''-'' # str_nat (nat (- i)) else str_nat (nat i))"

text \<open>
  \<^verbatim>\<open>repr\<close> of a string: single quotes unless the text holds a single quote and no double
  quote; backslash, the chosen quote, newline, carriage return and tab are escaped, other
  control characters are written \<^verbatim>\<open>\xNN\<close>. Characters here are bytes: the function is
  Python's on ASCII text.
\<close>

definition repr_char :: "char \<Rightarrow> char \<Rightarrow> string" where
  "repr_char q c =
     (if c = CHR 0x5C then [CHR 0x5C, CHR 0x5C]
      else if c = q then [CHR 0x5C, q]
      else if c = CHR 0x0A then [CHR 0x5C, CHR ''n'']
      else if c = CHR 0x0D then [CHR 0x5C, CHR ''r'']
      else if c = CHR 0x09 then [CHR 0x5C, CHR ''t'']
      else if of_char c < (32::nat) \<or> of_char c = (127::nat)
        then [CHR 0x5C, CHR ''x'', digit_char (of_char c div 16), digit_char (of_char c mod 16)]
      else [c])"

definition repr_str :: "string \<Rightarrow> string" where
  "repr_str s =
     (let q = (if CHR 0x27 \<in> set s \<and> CHR 0x22 \<notin> set s then CHR 0x22 else CHR 0x27)
      in [q] @ concat (map (repr_char q) s) @ [q])"

fun py_repr :: "json \<Rightarrow> string" where
  "py_repr JNull = ''None''"
| "py_repr (JBool b) = (if b then ''True'' else ''False'')"
| "py_repr (JInt i) = str_int i"
| "py_repr (JStr s) = repr_str s"
| "py_repr (JList xs) = ''['' @ join '', '' (map py_repr xs) @ '']''"
| "py_repr (JDict d) =
     ''{'' @ join '', '' (map (\<lambda>(k, v). repr_str k @ '': '' @ py_repr v) d) @ ''}''"

definition py_str :: "json \<Rightarrow> string" where
  "py_str v = (case v of JStr s \<Rightarrow> s | _ \<Rightarrow> py_repr v)"

subsection \<open>Operators of the language on loaded values\<close>

text \<open>\<^verbatim>\<open>k in v\<close> for a string \<open>k\<close>: key membership on a mapping, element membership on
  a sequence, substring test on a string, \<^verbatim>\<open>TypeError\<close> on the other scalars.\<close>

definition py_contains :: "string \<Rightarrow> json \<Rightarrow> py_error + bool" where
  "py_contains k v =
     (case v of
        JDict d \<Rightarrow> Inr (map_of d k \<noteq> None)
      | JList xs \<Rightarrow> Inr (JStr k \<in> set xs)
      | JStr s \<Rightarrow> Inr (is_substring k s)
      | _ \<Rightarrow> Inl TypeError)"

text \<open>\<^verbatim>\<open>v[k]\<close> for a string \<open>k\<close>.\<close>

definition py_getitem :: "json \<Rightarrow> string \<Rightarrow> py_error + json" where
  "py_getitem v k =
     (case v of
        JDict d \<Rightarrow> (case map_of d k of None \<Rightarrow> Inl KeyError | Some x \<Rightarrow> Inr x)
      | _ \<Rightarrow> Inl TypeError)"

text \<open>\<^verbatim>\<open>v.get(k, default)\<close>: only a mapping has the method.\<close>

definition py_get :: "json \<Rightarrow> string \<Rightarrow> json \<Rightarrow> py_error + json" where
  "py_get v k dflt =
     (case v of
        JDict d \<Rightarrow> (case map_of d k of None \<Rightarrow> Inr dflt | Some x \<Rightarrow> Inr x)
      | _ \<Rightarrow> Inl AttributeError)"

text \<open>\<^verbatim>\<open>v.items()\<close>.\<close>

definition py_items :: "json \<Rightarrow> py_error + (string \<times> json) list" where
  "py_items v = (case v of JDict d \<Rightarrow> Inr d | _ \<Rightarrow> Inl AttributeError)"

text \<open>Truth value of \<^verbatim>\<open>if v\<close>.\<close>

definition py_truthy :: "json \<Rightarrow> bool" where
  "py_truthy v =
     (case v of
        JNull \<Rightarrow> False
      | JBool b \<Rightarrow> b
      | JInt i \<Rightarrow> i \<noteq> 0
      | JStr s \<Rightarrow> s \<noteq> []
      | JList xs \<Rightarrow> xs \<noteq> []
      | JDict d \<Rightarrow> d \<noteq> [])"

text \<open>Iteration (\<^verbatim>\<open>for x in v\<close>, \<^verbatim>\<open>enumerate(v)\<close>, \<^verbatim>\<open>map(str, v)\<close>): the elements of a
  sequence, the keys of a mapping, the characters of a string.\<close>

definition py_iter :: "json \<Rightarrow> py_error + json list" where
  "py_iter v =
     (case v of
        JList xs \<Rightarrow> Inr xs
      | JDict d \<Rightarrow> Inr (map (\<lambda>(k, _). JStr k) d)
      | JStr s \<Rightarrow> Inr (map (\<lambda>c. JStr [c]) s)
      | _ \<Rightarrow> Inl TypeError)"

definition py_len :: "json \<Rightarrow> py_error + nat" where
  "py_len v =
     (case v of
        JList xs \<Rightarrow> Inr (length xs)
      | JDict d \<Rightarrow> Inr (length d)
      | JStr s \<Rightarrow> Inr (length s)
      | _ \<Rightarrow> Inl TypeError)"

text \<open>\<^verbatim>\<open>sep.join(xs)\<close> on a list: every element must be a string.\<close>

fun strings_of :: "json list \<Rightarrow> string list option" where
  "strings_of [] = Some []"
| "strings_of (JStr s # xs) = (case strings_of xs of None \<Rightarrow> None | Some ss \<Rightarrow> Some (s # ss))"
| "strings_of (_ # xs) = None"

definition py_join :: "string \<Rightarrow> json list \<Rightarrow> py_error + json" where
  "py_join sep xs =
     (case strings_of xs of None \<Rightarrow> Inl TypeError | Some ss \<Rightarrow> Inr (JStr (join sep ss)))"

text \<open>\<^verbatim>\<open>isinstance(v, list)\<close>, with the elements when it holds.\<close>

definition as_list :: "json \<Rightarrow> json list option" where
  "as_list v = (case v of JList xs \<Rightarrow> Some xs | _ \<Rightarrow> None)"

text \<open>\<^verbatim>\<open>v > 0\<close>: defined on numbers (a boolean is a number), \<^verbatim>\<open>TypeError\<close> otherwise.\<close>

definition py_gt_zero :: "json \<Rightarrow> py_error + bool" where
  "py_gt_zero v =
     (case v of
        JInt i \<Rightarrow> Inr (0 < i)
      | JBool b \<Rightarrow> Inr b
      | _ \<Rightarrow> Inl TypeError)"

section \<open>Cardinality and type strings\<close>

text \<open>\<^verbatim>\<open>get_cardinality(schema, parent_required, prop_name)\<close>, lines 111 to 134.\<close>

definition get_cardinality :: "json \<Rightarrow> json \<Rightarrow> string \<Rightarrow> py_error + string" where
  "get_cardinality schema parent_required prop_name =
     (case py_contains prop_name parent_required of
        Inl e \<Rightarrow> Inl e
      | Inr is_required \<Rightarrow>
          (case py_get schema ''type'' JNull of
             Inl e \<Rightarrow> Inl e
           | Inr t \<Rightarrow>
               if t = JStr ''array'' then
                 (case py_get schema ''minItems'' (JInt 0) of
                    Inl e \<Rightarrow> Inl e
                  | Inr min_items \<Rightarrow>
                      (case py_get schema ''maxItems'' JNull of
                         Inl e \<Rightarrow> Inl e
                       | Inr max_items \<Rightarrow>
                           if is_required then
                             (case py_gt_zero min_items of
                                Inl e \<Rightarrow> Inl e
                              | Inr positive \<Rightarrow>
                                  if positive then
                                    (if max_items \<noteq> JNull
                                     then Inr (py_str min_items @ ''..'' @ py_str max_items)
                                     else Inr (py_str min_items @ ''..*''))
                                  else
                                    (if max_items \<noteq> JNull
                                     then Inr (''0..'' @ py_str max_items)
                                     else Inr ''0..*''))
                           else Inr ''0..1 (array)''))
               else Inr (if is_required then ''1..1'' else ''0..1'')))"

text \<open>\<^verbatim>\<open>get_type_string(schema)\<close>, lines 136 to 169. In the final \<^verbatim>\<open>else\<close> of the
  \<^verbatim>\<open>type\<close> branch the function returns the value of \<^verbatim>\<open>type\<close> as it is, so the
  result is a value, a string in all the documented cases.\<close>

definition enum_string :: "json \<Rightarrow> py_error + json" where
  "enum_string enum_values =
     (case py_len enum_values of
        Inl e \<Rightarrow> Inl e
      | Inr n \<Rightarrow>
          if n \<le> 3 then
            (case py_iter enum_values of
               Inl e \<Rightarrow> Inl e
             | Inr vs \<Rightarrow> Inr (JStr (''enum('' @ join '', '' (map py_str vs) @ '')'')))
          else Inr (JStr (''enum('' @ str_nat n @ '' values)'')))"

function get_type_string :: "json \<Rightarrow> py_error + json" where
  "get_type_string schema =
     (case py_contains ''type'' schema of
        Inl e \<Rightarrow> Inl e
      | Inr has_type \<Rightarrow>
          if has_type then
            (case py_getitem schema ''type'' of
               Inl e \<Rightarrow> Inl e
             | Inr schema_type \<Rightarrow>
                 (case as_list schema_type of
                    Some ts \<Rightarrow> py_join '' | '' ts
                  | None \<Rightarrow>
                      if schema_type = JStr ''array'' then
                        (case py_get schema ''items'' (JDict []) of
                           Inl e \<Rightarrow> Inl e
                         | Inr items \<Rightarrow>
                             if py_truthy items then
                               (case get_type_string items of
                                  Inl e \<Rightarrow> Inl e
                                | Inr item_type \<Rightarrow>
                                    Inr (JStr (''array<'' @ py_str item_type @ ''>'')))
                             else Inr (JStr ''array<any>''))
                      else if schema_type = JStr ''object'' then Inr (JStr ''object'')
                      else Inr schema_type))
          else
            (case py_contains ''enum'' schema of
               Inl e \<Rightarrow> Inl e
             | Inr has_enum \<Rightarrow>
                 if has_enum then
                   (case py_getitem schema ''enum'' of
                      Inl e \<Rightarrow> Inl e
                    | Inr enum_values \<Rightarrow> enum_string enum_values)
                 else
                   (case py_contains ''oneOf'' schema of
                      Inl e \<Rightarrow> Inl e
                    | Inr has_one \<Rightarrow>
                        if has_one then Inr (JStr ''oneOf'')
                        else
                          (case py_contains ''anyOf'' schema of
                             Inl e \<Rightarrow> Inl e
                           | Inr has_any \<Rightarrow>
                               if has_any then Inr (JStr ''anyOf'')
                               else
                                 (case py_contains ''allOf'' schema of
                                    Inl e \<Rightarrow> Inl e
                                  | Inr has_all \<Rightarrow>
                                      if has_all then Inr (JStr ''allOf'')
                                      else
                                        (case py_contains ''$ref'' schema of
                                           Inl e \<Rightarrow> Inl e
                                         | Inr has_ref \<Rightarrow>
                                             if has_ref then
                                               (case py_getitem schema ''$ref'' of
                                                  Inl e \<Rightarrow> Inl e
                                                | Inr r \<Rightarrow>
                                                    Inr (JStr (''ref('' @ py_str r @ '')'')))
                                             else Inr (JStr ''unknown'')))))))"
  by pat_completeness auto
termination
proof (relation "measure size")
  show "wf (measure size)" by simp
next
  fix schema :: json and items
  assume got: "py_get schema ''items'' (JDict []) = Inr items" and truthy: "py_truthy items"
  have stored: "map_of d k = Some v \<Longrightarrow> size v < size (JDict d)" for d k and v :: json
    by (induction d) (auto split: if_splits)
  from truthy have "items \<noteq> JDict []" by (auto simp: py_truthy_def)
  with got have "size items < size schema"
    by (auto simp: py_get_def dest: stored split: json.splits option.splits)
  then show "(items, schema) \<in> measure size" by simp
qed

declare get_type_string.simps [simp del]

section \<open>The visualizer: state, files, references\<close>

text \<open>One output row (\<^verbatim>\<open>SchemaProperty\<close>). \<^verbatim>\<open>data_type\<close> and \<^verbatim>\<open>description\<close> hold
  whatever \<^verbatim>\<open>get_type_string\<close> and \<^verbatim>\<open>prop_schema.get('description', '')\<close> return.\<close>

record SchemaProperty =
  sp_path :: string
  sp_name :: string
  sp_data_type :: json
  sp_cardinality :: string
  sp_description :: json

text \<open>
  The fields of \<^verbatim>\<open>JSONSchemaVisualizer\<close> that a run changes, and two traces of its
  effects on the outside: the lines it prints and the paths it opens.
\<close>

record visualizer =
  resolved_refs :: "json set"
  schema_cache :: "string \<rightharpoonup> json"
  properties :: "SchemaProperty list"
  printed :: "string list"
  open_calls :: "string list"

text \<open>What \<^verbatim>\<open>open\<close> followed by the parser gives for a path.\<close>

datatype file_outcome = Parsed json | FileNotFound | LoadFailure string

text \<open>
  The file system and \<^verbatim>\<open>pathlib\<close>, as parameters: \<open>path_str\<close> is the text of the path
  after \<^verbatim>\<open>base_path\<close> is put in front of a relative one, \<open>cache_key\<close> the text of its
  \<^verbatim>\<open>resolve()\<close> or the exception that \<^verbatim>\<open>resolve()\<close> raises, \<open>read_file\<close> the outcome of
  opening and parsing it, and \<open>sibling current_path x\<close> the text of
  \<^verbatim>\<open>current_path.parent / x\<close>.
\<close>

record environment =
  path_str :: "string \<Rightarrow> string"
  cache_key :: "string \<Rightarrow> py_error + string"
  read_file :: "string \<Rightarrow> file_outcome"
  sibling :: "string \<Rightarrow> string \<Rightarrow> string"

text \<open>\<^verbatim>\<open>load_schema(file_path)\<close>, lines 38 to 64. The cache key is computed at line 45,
  before the \<^verbatim>\<open>try\<close> of line 49: an exception of \<^verbatim>\<open>resolve()\<close> leaves the method. Inside
  the \<^verbatim>\<open>try\<close> every exception is caught. Only a document that was parsed is stored in
  the cache.\<close>

definition load_schema ::
  "environment \<Rightarrow> visualizer \<Rightarrow> string \<Rightarrow> (py_error + json) \<times> visualizer" where
  "load_schema env self file_path =
     (case cache_key env file_path of
        Inl e \<Rightarrow> (Inl e, self)
      | Inr key \<Rightarrow>
          (case schema_cache self key of
             Some schema \<Rightarrow> (Inr schema, self)
           | None \<Rightarrow>
               (let self1 = self\<lparr>open_calls := open_calls self @ [path_str env file_path]\<rparr>
                in case read_file env file_path of
                     Parsed schema \<Rightarrow>
                       (Inr schema,
                        self1\<lparr>schema_cache := (schema_cache self1)(key \<mapsto> schema)\<rparr>)
                   | FileNotFound \<Rightarrow>
                       (Inr (JDict []),
                        self1\<lparr>printed := printed self1 @
                           [''Warning: Could not find file: '' @ path_str env file_path]\<rparr>)
                   | LoadFailure e \<Rightarrow>
                       (Inr (JDict []),
                        self1\<lparr>printed := printed self1 @
                           [''Warning: Error loading '' @ path_str env file_path @ '': '' @ e]\<rparr>))))"

text \<open>The three placeholder fragments of \<^verbatim>\<open>resolve_reference\<close>.\<close>

definition circular_placeholder :: "json \<Rightarrow> json" where
  "circular_placeholder ref =
     JDict [(''type'', JStr ''object''),
            (''description'', JStr (''Circular reference to '' @ py_str ref))]"

definition unresolved_placeholder :: "string \<Rightarrow> json" where
  "unresolved_placeholder ref =
     JDict [(''type'', JStr ''unknown''),
            (''description'', JStr (''Unresolved reference: '' @ ref))]"

definition external_placeholder :: "string \<Rightarrow> json" where
  "external_placeholder ref =
     JDict [(''type'', JStr ''external''),
            (''description'', JStr (''External reference: '' @ ref))]"

text \<open>The loop of lines 78 to 82 (and 96 to 100): descend through the keys; \<open>None\<close>
  is the early return of the placeholder.\<close>

definition as_dict :: "json \<Rightarrow> (string \<times> json) list option" where
  "as_dict v = (case v of JDict d \<Rightarrow> Some d | _ \<Rightarrow> None)"

fun walk_parts :: "json \<Rightarrow> string list \<Rightarrow> json option" where
  "walk_parts result [] = Some result"
| "walk_parts result (part # parts) =
     (case as_dict result of
        None \<Rightarrow> None
      | Some d \<Rightarrow>
          (case map_of d part of
             None \<Rightarrow> None
           | Some v \<Rightarrow> walk_parts v parts))"

definition as_str :: "json \<Rightarrow> string option" where
  "as_str v = (case v of JStr s \<Rightarrow> Some s | _ \<Rightarrow> None)"

text \<open>The \<^verbatim>\<open>try\<close> block of \<^verbatim>\<open>resolve_reference\<close>, lines 74 to 104. A reference that is
  not a string has no \<^verbatim>\<open>startswith\<close>.\<close>

definition resolve_target ::
  "environment \<Rightarrow> visualizer \<Rightarrow> json \<Rightarrow> json \<Rightarrow> string \<Rightarrow> (py_error + json) \<times> visualizer" where
  "resolve_target env self ref current_schema current_path =
     (case as_str ref of
        None \<Rightarrow> (Inl AttributeError, self)
      | Some r \<Rightarrow>
          if startswith r ''#/'' then
            (case walk_parts current_schema (split_on (CHR ''/'') (drop 2 r)) of
               None \<Rightarrow> (Inr (unresolved_placeholder r), self)
             | Some result \<Rightarrow> (Inr result, self))
          else if startswith r ''http'' then (Inr (external_placeholder r), self)
          else
            (case split_fragment r of
               Some (file_part, fragment) \<Rightarrow>
                 (case load_schema env self (sibling env current_path file_part) of
                    (Inl e, self1) \<Rightarrow> (Inl e, self1)
                  | (Inr schema, self1) \<Rightarrow>
                      (case walk_parts schema (split_on (CHR ''/'') fragment) of
                         None \<Rightarrow> (Inr (unresolved_placeholder r), self1)
                       | Some result \<Rightarrow> (Inr result, self1)))
             | None \<Rightarrow> load_schema env self (sibling env current_path r)))"

text \<open>Membership in a \<^verbatim>\<open>set\<close> hashes the value: a list or a mapping is unhashable, and
  \<^verbatim>\<open>True\<close> and \<^verbatim>\<open>False\<close> are the keys \<^verbatim>\<open>1\<close> and \<^verbatim>\<open>0\<close>.\<close>

definition hash_key :: "json \<Rightarrow> json option" where
  "hash_key v =
     (case v of
        JList _ \<Rightarrow> None
      | JDict _ \<Rightarrow> None
      | JBool b \<Rightarrow> Some (JInt (if b then 1 else 0))
      | _ \<Rightarrow> Some v)"

text \<open>\<^verbatim>\<open>resolve_reference(ref, current_schema, current_path)\<close>, lines 66 to 109: the
  guard, the \<^verbatim>\<open>try\<close> block, and the \<^verbatim>\<open>finally\<close> that runs on every way out of it.\<close>

definition resolve_reference ::
  "environment \<Rightarrow> visualizer \<Rightarrow> json \<Rightarrow> json \<Rightarrow> string \<Rightarrow> (py_error + json) \<times> visualizer" where
  "resolve_reference env self ref current_schema current_path =
     (case hash_key ref of
        None \<Rightarrow> (Inl TypeError, self)
      | Some k \<Rightarrow>
          if k \<in> resolved_refs self then (Inr (circular_placeholder ref), self)
          else
            (case resolve_target env (self\<lparr>resolved_refs := insert k (resolved_refs self)\<rparr>)
                    ref current_schema current_path of
               (result, self2) \<Rightarrow>
                 (result, self2\<lparr>resolved_refs := resolved_refs self2 - {k}\<rparr>)))"

text \<open>
  The classification of lines 74, 85 and 91: a reference that does not start with
  \<^verbatim>\<open>#/\<close> or \<^verbatim>\<open>http\<close> names a file, the text before its first \<^verbatim>\<open>#/\<close> or the whole of it.
  \<open>fragment_of_document d r\<close> is what lines 92 to 104 make of the loaded document \<open>d\<close>.
\<close>

definition file_of :: "string \<Rightarrow> string option" where
  "file_of r =
     (if startswith r ''#/'' \<or> startswith r ''http'' then None
      else (case split_fragment r of
              Some (file_part, fragment) \<Rightarrow> Some file_part
            | None \<Rightarrow> Some r))"

definition fragment_of_document :: "json \<Rightarrow> string \<Rightarrow> json" where
  "fragment_of_document d r =
     (case split_fragment r of
        None \<Rightarrow> d
      | Some (file_part, fragment) \<Rightarrow>
          (case walk_parts d (split_on (CHR ''/'') fragment) of
             None \<Rightarrow> unresolved_placeholder r
           | Some result \<Rightarrow> result))"

section \<open>The recursive walker\<close>

text \<open>
  The result of a walk: \<open>None\<close> when the recursion depth allowed to it is used up,
  \<open>Some (Inl e)\<close> when exception \<open>e\<close> leaves \<^verbatim>\<open>parse_schema\<close>, \<open>Some (Inr self)\<close> when it
  returns, with the visualizer as it then is.
\<close>

type_synonym outcome = "(py_error + visualizer) option"

type_synonym walker = "visualizer \<Rightarrow> json \<Rightarrow> string \<Rightarrow> json \<Rightarrow> string \<Rightarrow> outcome"

text \<open>A \<^verbatim>\<open>for\<close> loop whose body may raise: the first exception ends it.\<close>

fun for_each :: "(visualizer \<Rightarrow> 'a \<Rightarrow> outcome) \<Rightarrow> 'a list \<Rightarrow> visualizer \<Rightarrow> outcome" where
  "for_each body [] self = Some (Inr self)"
| "for_each body (x # xs) self =
     (case body self x of
        None \<Rightarrow> None
      | Some (Inl e) \<Rightarrow> Some (Inl e)
      | Some (Inr self1) \<Rightarrow> for_each body xs self1)"

text \<open>\<^verbatim>\<open>x.get('type') == 'object' or 'properties' in x\<close>.\<close>

definition is_object_like :: "json \<Rightarrow> py_error + bool" where
  "is_object_like x =
     (case py_get x ''type'' JNull of
        Inl e \<Rightarrow> Inl e
      | Inr t \<Rightarrow> if t = JStr ''object'' then Inr True else py_contains ''properties'' x)"

text \<open>\<^verbatim>\<open>x.get('type') == 'array' and 'items' in x\<close>.\<close>

definition is_array_with_items :: "json \<Rightarrow> py_error + bool" where
  "is_array_with_items x =
     (case py_get x ''type'' JNull of
        Inl e \<Rightarrow> Inl e
      | Inr t \<Rightarrow> if t = JStr ''array'' then py_contains ''items'' x else Inr False)"

text \<open>The pair of statements that occurs at lines 182 to 183, 224 to 225 and 227 to 228:
  resolve the \<^verbatim>\<open>$ref\<close> of \<open>holder\<close>, with \<open>holder\<close> itself as \<^verbatim>\<open>current_schema\<close>, and walk
  what comes back. \<open>rec\<close> is the recursive call.\<close>

definition parse_resolved ::
  "walker \<Rightarrow> environment \<Rightarrow> visualizer \<Rightarrow> json \<Rightarrow> string \<Rightarrow> json \<Rightarrow> string \<Rightarrow> outcome" where
  "parse_resolved rec env self holder path parent_required current_file =
     (case py_getitem holder ''$ref'' of
        Inl e \<Rightarrow> Some (Inl e)
      | Inr ref \<Rightarrow>
          (case resolve_reference env self ref holder current_file of
             (Inl e, self1) \<Rightarrow> Some (Inl e)
           | (Inr resolved, self1) \<Rightarrow> rec self1 resolved path parent_required current_file))"

text \<open>The first of the keys, in the order given, that \<^verbatim>\<open>schema\<close> contains: the
  \<^verbatim>\<open>for combine_key in [...]\<close> of line 187 runs its body for that key and returns.\<close>

fun first_combinator :: "string list \<Rightarrow> json \<Rightarrow> py_error + string option" where
  "first_combinator [] schema = Inr None"
| "first_combinator (k # ks) schema =
     (case py_contains k schema of
        Inl e \<Rightarrow> Inl e
      | Inr b \<Rightarrow> if b then Inr (Some k) else first_combinator ks schema)"

definition sub_path :: "string \<Rightarrow> string \<Rightarrow> string" where
  "sub_path combine_key path =
     (if combine_key = ''allOf'' then path
      else if combine_key = ''anyOf'' then path @ ''[or]/''
      else path @ ''[xor]/'')"

text \<open>The body of the loop over \<^verbatim>\<open>properties.items()\<close>, lines 204 to 228.\<close>

definition parse_property ::
  "walker \<Rightarrow> environment \<Rightarrow> json \<Rightarrow> string \<Rightarrow> string \<Rightarrow> visualizer \<Rightarrow> string \<times> json \<Rightarrow> outcome" where
  "parse_property rec env required path current_file self prop =
     (case prop of (prop_name, prop_schema) \<Rightarrow>
      (let prop_path = path @ ''/'' @ prop_name in
       case get_type_string prop_schema of
         Inl e \<Rightarrow> Some (Inl e)
       | Inr data_type \<Rightarrow>
      (case get_cardinality prop_schema required prop_name of
         Inl e \<Rightarrow> Some (Inl e)
       | Inr cardinality \<Rightarrow>
      (case py_get prop_schema ''description'' (JStr []) of
         Inl e \<Rightarrow> Some (Inl e)
       | Inr description \<Rightarrow>
      (let self1 = self\<lparr>properties := properties self @
                     [\<lparr>sp_path = (if path \<noteq> [] then path else ''/''),
                       sp_name = prop_name,
                       sp_data_type = data_type,
                       sp_cardinality = cardinality,
                       sp_description = description\<rparr>]\<rparr> in
       case is_object_like prop_schema of
         Inl e \<Rightarrow> Some (Inl e)
       | Inr object_like \<Rightarrow>
           if object_like then rec self1 prop_schema prop_path (JList []) current_file
           else
             (case is_array_with_items prop_schema of
                Inl e \<Rightarrow> Some (Inl e)
              | Inr array_like \<Rightarrow>
                  if array_like then
                    (case py_getitem prop_schema ''items'' of
                       Inl e \<Rightarrow> Some (Inl e)
                     | Inr items_schema \<Rightarrow>
                         (case is_object_like items_schema of
                            Inl e \<Rightarrow> Some (Inl e)
                          | Inr items_object \<Rightarrow>
                              if items_object then
                                rec self1 items_schema (prop_path @ ''[]'') (JList []) current_file
                              else
                                (case py_contains ''$ref'' items_schema of
                                   Inl e \<Rightarrow> Some (Inl e)
                                 | Inr has_ref \<Rightarrow>
                                     if has_ref then
                                       parse_resolved rec env self1 items_schema
                                         (prop_path @ ''[]'') (JList []) current_file
                                     else Some (Inr self1))))
                  else
                    (case py_contains ''$ref'' prop_schema of
                       Inl e \<Rightarrow> Some (Inl e)
                     | Inr has_ref \<Rightarrow>
                         if has_ref then
                           parse_resolved rec env self1 prop_schema prop_path (JList [])
                             current_file
                         else Some (Inr self1))))))))"

text \<open>The body of \<^verbatim>\<open>parse_schema\<close>, lines 180 to 235, with \<open>rec\<close> for its recursive
  calls.\<close>

definition parse_body :: "walker \<Rightarrow> environment \<Rightarrow> walker" where
  "parse_body rec env self schema path parent_required current_file =
     (case py_contains ''$ref'' schema of
        Inl e \<Rightarrow> Some (Inl e)
      | Inr has_ref \<Rightarrow>
          if has_ref then parse_resolved rec env self schema path parent_required current_file
          else
            (case first_combinator [''allOf'', ''anyOf'', ''oneOf''] schema of
               Inl e \<Rightarrow> Some (Inl e)
             | Inr (Some combine_key) \<Rightarrow>
                 (case py_getitem schema combine_key of
                    Inl e \<Rightarrow> Some (Inl e)
                  | Inr branches \<Rightarrow>
                      (case py_iter branches of
                         Inl e \<Rightarrow> Some (Inl e)
                       | Inr sub_schemas \<Rightarrow>
                           for_each
                             (\<lambda>self1 sub_schema.
                                rec self1 sub_schema (sub_path combine_key path)
                                  parent_required current_file)
                             sub_schemas self))
             | Inr None \<Rightarrow>
                 (case is_object_like schema of
                    Inl e \<Rightarrow> Some (Inl e)
                  | Inr object_like \<Rightarrow>
                      if object_like then
                        (case py_get schema ''properties'' (JDict []) of
                           Inl e \<Rightarrow> Some (Inl e)
                         | Inr props \<Rightarrow>
                             (case py_get schema ''required'' (JList []) of
                                Inl e \<Rightarrow> Some (Inl e)
                              | Inr required \<Rightarrow>
                                  (case py_items props of
                                     Inl e \<Rightarrow> Some (Inl e)
                                   | Inr entries \<Rightarrow>
                                       for_each
                                         (parse_property rec env required path current_file)
                                         entries self)))
                      else
                        (case is_array_with_items schema of
                           Inl e \<Rightarrow> Some (Inl e)
                         | Inr array_like \<Rightarrow>
                             if array_like then
                               (case py_getitem schema ''items'' of
                                  Inl e \<Rightarrow> Some (Inl e)
                                | Inr items_schema \<Rightarrow>
                                    (case is_object_like items_schema of
                                       Inl e \<Rightarrow> Some (Inl e)
                                     | Inr items_object \<Rightarrow>
                                         if items_object then
                                           rec self items_schema
                                             (if path \<noteq> [] then path @ ''[]'' else ''[]'')
                                             (JList []) current_file
                                         else Some (Inr self)))
                             else Some (Inr self)))))"

text \<open>
  \<^verbatim>\<open>parse_schema\<close> with a bound on the depth of its recursion: at depth \<open>0\<close> the call
  does not return. Python's own bound is its recursion limit, where the interpreter
  raises \<^verbatim>\<open>RecursionError\<close>.
\<close>

primrec parse_schema :: "nat \<Rightarrow> environment \<Rightarrow> walker" where
  "parse_schema 0 env = (\<lambda>self schema path parent_required current_file. None)"
| "parse_schema (Suc n) env = parse_body (parse_schema n env) env"

text \<open>\<^verbatim>\<open>visualize_schema(schema_file)\<close>, lines 237 to 246: the rows are the
  \<open>properties\<close> of the visualizer it returns.\<close>

definition visualize_schema :: "nat \<Rightarrow> environment \<Rightarrow> visualizer \<Rightarrow> string \<Rightarrow> outcome" where
  "visualize_schema n env self schema_file =
     (case load_schema env
             (self\<lparr>properties := [], resolved_refs := {}, schema_cache := Map.empty\<rparr>)
             schema_file of
        (Inl e, self1) \<Rightarrow> Some (Inl e)
      | (Inr schema, self1) \<Rightarrow> parse_schema n env self1 schema [] (JList []) schema_file)"

section \<open>Well-formed schemas and the table they should give\<close>

text \<open>
  The input the tool is written for (``conforming loosely to JSON Schema''): every fragment
  is a mapping; \<^verbatim>\<open>properties\<close> is a mapping of fragments, \<^verbatim>\<open>items\<close> a fragment, \<^verbatim>\<open>required\<close>
  and \<^verbatim>\<open>enum\<close> lists, a list-valued \<^verbatim>\<open>type\<close> a list of strings, \<^verbatim>\<open>minItems\<close> an integer,
  each of \<^verbatim>\<open>allOf\<close>, \<^verbatim>\<open>anyOf\<close>, \<^verbatim>\<open>oneOf\<close> a list of fragments, and there is no \<^verbatim>\<open>$ref\<close>.
  With \<open>combinators = False\<close> the three combinator keys are excluded as well.
\<close>

definition is_int :: "json \<Rightarrow> bool" where
  "is_int v = (case v of JInt _ \<Rightarrow> True | _ \<Rightarrow> False)"

function schema_ok :: "bool \<Rightarrow> json \<Rightarrow> bool" where
  "schema_ok combinators schema =
     (case as_dict schema of
        None \<Rightarrow> False
      | Some d \<Rightarrow>
          map_of d ''$ref'' = None \<and>
          list_all
            (\<lambda>k. case map_of d k of
                   None \<Rightarrow> True
                 | Some b \<Rightarrow>
                     combinators \<and>
                     (case as_list b of
                        None \<Rightarrow> False
                      | Some branches \<Rightarrow> list_all (schema_ok combinators) branches))
            [''allOf'', ''anyOf'', ''oneOf''] \<and>
          (case map_of d ''properties'' of
             None \<Rightarrow> True
           | Some p \<Rightarrow>
               (case as_dict p of
                  None \<Rightarrow> False
                | Some ps \<Rightarrow> list_all (schema_ok combinators) (map snd ps))) \<and>
          (case map_of d ''items'' of
             None \<Rightarrow> True
           | Some items \<Rightarrow> schema_ok combinators items) \<and>
          (case map_of d ''required'' of
             None \<Rightarrow> True
           | Some r \<Rightarrow> as_list r \<noteq> None) \<and>
          (case map_of d ''type'' of
             None \<Rightarrow> True
           | Some t \<Rightarrow> (case as_list t of None \<Rightarrow> True | Some ts \<Rightarrow> strings_of ts \<noteq> None)) \<and>
          (case map_of d ''enum'' of
             None \<Rightarrow> True
           | Some e \<Rightarrow> as_list e \<noteq> None) \<and>
          (case map_of d ''minItems'' of
             None \<Rightarrow> True
           | Some m \<Rightarrow> is_int m))"
  by pat_completeness auto
termination
proof (relation "measure (\<lambda>(combinators, schema). size schema)")
  have stored: "map_of d k = Some v \<Longrightarrow> size v < size (JDict d)" for d k and v :: json
    by (induction d) (auto split: if_splits)
  have element: "x \<in> set xs \<Longrightarrow> size x < size (JList xs)" for x :: json and xs
    by (induction xs) auto
  have entry: "(k, x) \<in> set ps \<Longrightarrow> size x < size (JDict ps)" for k and x :: json and ps
    by (induction ps) auto
  have dict: "as_dict v = Some d \<Longrightarrow> v = JDict d" for v d
    by (auto simp: as_dict_def split: json.splits)
  have list: "as_list v = Some xs \<Longrightarrow> v = JList xs" for v xs
    by (auto simp: as_list_def split: json.splits)
  show "wf (measure (\<lambda>(combinators, schema). size schema))" by simp
  show "((combinators, z), combinators, schema) \<in> measure (\<lambda>(combinators, schema). size schema)"
    if "as_dict schema = Some d" "map_of d k = Some b" "as_list b = Some branches" "z \<in> set branches"
    for combinators schema d k b branches z
    using that stored [of d k b] element [of z branches] by (auto dest!: dict list)
  show "((combinators, z), combinators, schema) \<in> measure (\<lambda>(combinators, schema). size schema)"
    if "as_dict schema = Some d" "map_of d ''properties'' = Some p" "as_dict p = Some ps"
      "z \<in> set (map snd ps)"
    for combinators schema d p ps z
    using that stored [of d "''properties''" p] by (auto dest!: dict dest: entry)
  show "((combinators, items), combinators, schema) \<in> measure (\<lambda>(combinators, schema). size schema)"
    if "as_dict schema = Some d" "map_of d ''items'' = Some items"
    for combinators schema d items
    using that stored [of d "''items''" items] by (auto dest!: dict)
qed

declare schema_ok.simps [simp del]


text \<open>
  The table of a schema, written from the rules of the walker as the specification
  gives them (steps 2 to 5 of its recursive walker), without state, errors or a depth
  bound. A fragment is object-like when its \<^verbatim>\<open>type\<close> is \<^verbatim>\<open>object\<close> or it has \<^verbatim>\<open>properties\<close>;
  \<open>object_items v\<close> is the \<^verbatim>\<open>items\<close> of an array fragment when they are object-like;
  \<open>declared v\<close> are the properties \<open>v\<close> declares, in key order.
\<close>

definition object_like :: "json \<Rightarrow> bool" where
  "object_like v =
     (case as_dict v of
        None \<Rightarrow> False
      | Some d \<Rightarrow> map_of d ''type'' = Some (JStr ''object'') \<or> map_of d ''properties'' \<noteq> None)"

definition object_items :: "json \<Rightarrow> json option" where
  "object_items v =
     (case as_dict v of
        None \<Rightarrow> None
      | Some d \<Rightarrow>
          if map_of d ''type'' = Some (JStr ''array'') then
            (case map_of d ''items'' of
               None \<Rightarrow> None
             | Some items \<Rightarrow> if object_like items then Some items else None)
          else None)"

definition declared :: "json \<Rightarrow> (string \<times> json) list" where
  "declared v =
     (case as_dict v of
        None \<Rightarrow> []
      | Some d \<Rightarrow>
          (case map_of d ''properties'' of
             None \<Rightarrow> []
           | Some p \<Rightarrow> (case as_dict p of None \<Rightarrow> [] | Some ps \<Rightarrow> ps)))"

definition required_of :: "json \<Rightarrow> json" where
  "required_of v =
     (case as_dict v of
        None \<Rightarrow> JList []
      | Some d \<Rightarrow> (case map_of d ''required'' of None \<Rightarrow> JList [] | Some r \<Rightarrow> r))"

definition elements :: "json \<Rightarrow> json list" where
  "elements v = (case as_list v of None \<Rightarrow> [] | Some xs \<Rightarrow> xs)"

definition chosen_branches :: "json \<Rightarrow> (string \<times> json list) option" where
  "chosen_branches v =
     (case as_dict v of
        None \<Rightarrow> None
      | Some d \<Rightarrow>
          (case map_of d ''allOf'' of
             Some b \<Rightarrow> Some (''allOf'', elements b)
           | None \<Rightarrow>
               (case map_of d ''anyOf'' of
                  Some b \<Rightarrow> Some (''anyOf'', elements b)
                | None \<Rightarrow>
                    (case map_of d ''oneOf'' of
                       Some b \<Rightarrow> Some (''oneOf'', elements b)
                     | None \<Rightarrow> None))))"

text \<open>The row of one declared property, by the two derivers.\<close>

definition row_of :: "json \<Rightarrow> string \<Rightarrow> string \<Rightarrow> json \<Rightarrow> SchemaProperty" where
  "row_of required path name v =
     \<lparr>sp_path = (if path \<noteq> [] then path else ''/''),
      sp_name = name,
      sp_data_type = (case get_type_string v of Inl e \<Rightarrow> JNull | Inr t \<Rightarrow> t),
      sp_cardinality = (case get_cardinality v required name of Inl e \<Rightarrow> [] | Inr c \<Rightarrow> c),
      sp_description = (case py_get v ''description'' (JStr []) of Inl e \<Rightarrow> JNull | Inr t \<Rightarrow> t)\<rparr>"

text \<open>
  The table, as the specification words the walk: a combinator fragment gives the rows of
  its branches, one after the other; an object-like fragment gives, for each declared property in key order, its
  row followed by the rows below it (of the property itself when it is object-like, of
  its items when it is an array of object-like items); an array of object-like items
  gives the rows of the items; anything else gives none.
\<close>

function table_of :: "json \<Rightarrow> string \<Rightarrow> SchemaProperty list" where
  "table_of schema path =
     (case chosen_branches schema of
        Some (combine_key, branches) \<Rightarrow>
          concat (map (\<lambda>branch. table_of branch (sub_path combine_key path)) branches)
      | None \<Rightarrow>
          if object_like schema then
            concat (map (\<lambda>(name, v).
                      row_of (required_of schema) path name v #
                      (if object_like v then table_of v (path @ ''/'' @ name)
                       else (case object_items v of
                               None \<Rightarrow> []
                             | Some items \<Rightarrow> table_of items (path @ ''/'' @ name @ ''[]''))))
                    (declared schema))
          else
            (case object_items schema of
               None \<Rightarrow> []
             | Some items \<Rightarrow> table_of items (if path \<noteq> [] then path @ ''[]'' else ''[]'')))"
  by pat_completeness auto
termination
proof (relation "measure (\<lambda>(schema, path). size schema)")
  have stored: "map_of d k = Some v \<Longrightarrow> size v < size (JDict d)" for d k and v :: json
    by (induction d) (auto split: if_splits)
  have element: "x \<in> set xs \<Longrightarrow> size x < size (JList xs)" for x :: json and xs
    by (induction xs) auto
  have entry: "(k, x) \<in> set ps \<Longrightarrow> size x < size (JDict ps)" for k and x :: json and ps
    by (induction ps) auto
  have dict: "(as_dict v = Some d) = (v = JDict d)" "(Some d = as_dict v) = (v = JDict d)" for v d
    by (auto simp: as_dict_def split: json.splits)
  have branch_smaller: "size x < size v" if "chosen_branches v = Some (k, xs)" "x \<in> set xs" for v k xs x
  proof -
    from that obtain d k' b where "v = JDict d" "map_of d k' = Some b" "x \<in> set (elements b)"
      by (cases v) (auto simp: chosen_branches_def as_dict_def split: option.splits)
    moreover from this have "b = JList (elements b)"
      by (auto simp: elements_def as_list_def split: json.splits)
    ultimately show ?thesis
      using stored [of d k' b] element [of x "elements b"] by simp
  qed
  have declared_smaller: "size x < size v" if "(k, x) \<in> set (declared v)" for v k x
  proof -
    from that obtain d ps where "v = JDict d" "map_of d ''properties'' = Some (JDict ps)"
      "(k, x) \<in> set ps"
      by (cases v; cases "map_of (the (as_dict v)) ''properties''")
         (auto simp: declared_def as_dict_def split: json.splits)
    then show ?thesis
      using stored [of d "''properties''" "JDict ps"] entry [of k x ps] by simp
  qed
  have items_smaller: "size x < size v" if "object_items v = Some x" for v x
    using that by (auto simp: object_items_def dict split: option.splits if_splits dest!: stored)
  show "wf (measure (\<lambda>(schema, path). size schema))" by simp
  show "((branch, sub_path k path), schema, path) \<in> measure (\<lambda>(schema, path). size schema)"
    if "chosen_branches schema = Some chosen" "(k, xs) = chosen" "branch \<in> set xs"
    for schema path chosen k xs branch
    using branch_smaller [of schema k xs branch] that by simp
  show "((v, path @ ''/'' @ name), schema, path) \<in> measure (\<lambda>(schema, path). size schema)"
    if "entry \<in> set (declared schema)" "(name, v) = entry" for schema path entry name v
    using declared_smaller [of name v schema] that by simp
  show "((x, path @ ''/'' @ name @ ''[]''), schema, path) \<in> measure (\<lambda>(schema, path). size schema)"
    if "entry \<in> set (declared schema)" "(name, v) = entry" "object_items v = Some x"
    for schema path entry name v x
    using declared_smaller [of name v schema] items_smaller [of v x] that by simp
  show "((x, if path \<noteq> [] then path @ ''[]'' else ''[]''), schema, path)
          \<in> measure (\<lambda>(schema, path). size schema)"
    if "object_items schema = Some x" for schema path x
    using items_smaller [OF that] by simp
qed

declare table_of.simps [simp del]

text \<open>
  A second reading of the specification, by its own words: the names of the properties
  declared at every nesting level that can be reached through \<^verbatim>\<open>properties\<close> and \<^verbatim>\<open>items\<close>, in key order, as the testable
  property for schemas without references and combinators words it.
\<close>

definition items_of :: "json \<Rightarrow> json option" where
  "items_of v = (case as_dict v of None \<Rightarrow> None | Some d \<Rightarrow> map_of d ''items'')"

function declared_everywhere :: "json \<Rightarrow> string list" where
  "declared_everywhere schema =
     concat (map (\<lambda>(name, v). name # declared_everywhere v) (declared schema)) @
     (case items_of schema of
        None \<Rightarrow> []
      | Some items \<Rightarrow> declared_everywhere items)"
  by pat_completeness auto
termination
proof (relation "measure size")
  have stored: "map_of d k = Some v \<Longrightarrow> size v < size (JDict d)" for d k and v :: json
    by (induction d) (auto split: if_splits)
  have entry: "(k, x) \<in> set ps \<Longrightarrow> size x < size (JDict ps)" for k and x :: json and ps
    by (induction ps) auto
  have declared_smaller: "size x < size v" if "(k, x) \<in> set (declared v)" for v k x
  proof -
    from that obtain d ps where "v = JDict d" "map_of d ''properties'' = Some (JDict ps)"
      "(k, x) \<in> set ps"
      by (cases v; cases "map_of (the (as_dict v)) ''properties''")
         (auto simp: declared_def as_dict_def split: json.splits)
    then show ?thesis
      using stored [of d "''properties''" "JDict ps"] entry [of k x ps] by simp
  qed
  show "wf (measure size)" by simp
  show "(v, schema) \<in> measure size"
    if "entry \<in> set (declared schema)" "(name, v) = entry" for schema entry name v
    using declared_smaller [of name v schema] that by simp
  show "(items, schema) \<in> measure size" if "items_of schema = Some items" for schema items
    using that by (cases schema) (auto simp: items_of_def as_dict_def dest: stored)
qed

declare declared_everywhere.simps [simp del]

text \<open>An object whose property \<^verbatim>\<open>matrix\<close> is an array of arrays of objects.\<close>

definition matrix_doc :: json where
  "matrix_doc =
     JDict [(''type'', JStr ''object''),
            (''properties'',
             JDict [(''matrix'',
               JDict [(''type'', JStr ''array''),
                      (''items'',
                       JDict [(''type'', JStr ''array''),
                              (''items'',
                               JDict [(''type'', JStr ''object''),
                                      (''properties'',
                                       JDict [(''x'', JDict [(''type'', JStr ''number'')])])])])])])]"

section \<open>Well-formed schemas with references\<close>

text \<open>
  What a reference designates: the fragment that \<^verbatim>\<open>resolve_reference\<close> (lines 74 to 104)
  returns for the token \<open>r\<close> found in \<open>holder\<close>, read off the files themselves. An
  internal token is looked up in the fragment that holds it, as the call sites pass that
  fragment for \<^verbatim>\<open>current_schema\<close>; a remote token gives the \<^verbatim>\<open>external\<close> placeholder; a file
  token gives the fragment of the document of its file, and a file that is missing or
  does not parse has the empty document.
\<close>

definition file_document :: "environment \<Rightarrow> string \<Rightarrow> json" where
  "file_document env p = (case read_file env p of Parsed d \<Rightarrow> d | _ \<Rightarrow> JDict [])"

definition designated :: "environment \<Rightarrow> string \<Rightarrow> json \<Rightarrow> string \<Rightarrow> json" where
  "designated env current_path holder r =
     (if startswith r ''#/'' then
        (case walk_parts holder (split_on (CHR ''/'') (drop 2 r)) of
           None \<Rightarrow> unresolved_placeholder r
         | Some result \<Rightarrow> result)
      else if startswith r ''http'' then external_placeholder r
      else
        (case split_fragment r of
           Some (file_part, fragment) \<Rightarrow>
             fragment_of_document (file_document env (sibling env current_path file_part)) r
         | None \<Rightarrow> file_document env (sibling env current_path r)))"

text \<open>The path of the file that a file token names can be resolved (line 45 returns).\<close>

definition resolvable :: "environment \<Rightarrow> string \<Rightarrow> string \<Rightarrow> bool" where
  "resolvable env current_path r =
     (case file_of r of
        None \<Rightarrow> True
      | Some f \<Rightarrow>
          (case cache_key env (sibling env current_path f) of
             Inl e \<Rightarrow> False
           | Inr key \<Rightarrow> True))"

text \<open>
  One level of well-formedness, with \<open>ok\<close> for the fragments below: the keys have the
  shapes of \<open>schema_ok\<close>, and a \<^verbatim>\<open>$ref\<close> is a string whose file path can be resolved and
  whose designated fragment is \<open>ok\<close>.
\<close>

definition fragment_ok :: "(json \<Rightarrow> bool) \<Rightarrow> environment \<Rightarrow> string \<Rightarrow> json \<Rightarrow> bool" where
  "fragment_ok ok env current_path schema =
     (case as_dict schema of
        None \<Rightarrow> False
      | Some d \<Rightarrow>
          (case map_of d ''$ref'' of
             None \<Rightarrow> True
           | Some ref \<Rightarrow>
               (case as_str ref of
                  None \<Rightarrow> False
                | Some r \<Rightarrow>
                    resolvable env current_path r \<and>
                    ok (designated env current_path schema r))) \<and>
          list_all
            (\<lambda>k. case map_of d k of
                   None \<Rightarrow> True
                 | Some b \<Rightarrow>
                     (case as_list b of
                        None \<Rightarrow> False
                      | Some branches \<Rightarrow> list_all ok branches))
            [''allOf'', ''anyOf'', ''oneOf''] \<and>
          (case map_of d ''properties'' of
             None \<Rightarrow> True
           | Some p \<Rightarrow>
               (case as_dict p of
                  None \<Rightarrow> False
                | Some ps \<Rightarrow> list_all ok (map snd ps))) \<and>
          (case map_of d ''items'' of
             None \<Rightarrow> True
           | Some items \<Rightarrow> ok items) \<and>
          (case map_of d ''required'' of
             None \<Rightarrow> True
           | Some r \<Rightarrow> as_list r \<noteq> None) \<and>
          (case map_of d ''type'' of
             None \<Rightarrow> True
           | Some t \<Rightarrow> (case as_list t of None \<Rightarrow> True | Some ts \<Rightarrow> strings_of ts \<noteq> None)) \<and>
          (case map_of d ''enum'' of
             None \<Rightarrow> True
           | Some e \<Rightarrow> as_list e \<noteq> None) \<and>
          (case map_of d ''minItems'' of
             None \<Rightarrow> True
           | Some m \<Rightarrow> is_int m))"

text \<open>
  \<open>well_formed k env current_path schema\<close>: the schema is well formed through at most
  \<open>k\<close> levels, where a level is a step into a property, an item, a branch or the fragment
  that a reference designates. A chain of references that comes back to itself is
  well formed for no \<open>k\<close>.
\<close>

primrec well_formed :: "nat \<Rightarrow> environment \<Rightarrow> string \<Rightarrow> json \<Rightarrow> bool" where
  "well_formed 0 env current_path = (\<lambda>schema. False)"
| "well_formed (Suc k) env current_path =
     fragment_ok (well_formed k env current_path) env current_path"


definition cache_agrees :: "environment \<Rightarrow> visualizer \<Rightarrow> bool" where
  "cache_agrees env self =
     (\<forall>p key d. cache_key env p = Inr key \<and> schema_cache self key = Some d \<longrightarrow>
        read_file env p = Parsed d)"

text \<open>
  The visualizer between two resolutions: the guard is empty and the cache agrees with
  the files. \<open>continues env self self'\<close>: \<open>self'\<close> is such a visualizer, and its rows are
  those of \<open>self\<close> with more rows after them.
\<close>

definition at_rest :: "environment \<Rightarrow> visualizer \<Rightarrow> bool" where
  "at_rest env self = (resolved_refs self = {} \<and> cache_agrees env self)"


section \<open>A small file system for the examples\<close>

text \<open>
  Three files beside the root document: \<^verbatim>\<open>a.yaml\<close> holds \<^verbatim>\<open>{"$ref": "a.yaml"}\<close>,
  \<^verbatim>\<open>broken.yaml\<close> does not parse, and \<^verbatim>\<open>person.yaml\<close> is an object with one property;
  every other path is missing. Paths are their own text and their own cache key, and a
  reference is looked up in the one directory. Two paths cannot be resolved:
  \<^verbatim>\<open>loop.yaml\<close> is a symbolic link to itself (\<^verbatim>\<open>resolve()\<close> raises \<^verbatim>\<open>RuntimeError\<close> up to
  Python 3.12, and \<^verbatim>\<open>open\<close> fails on it), and \<open>nul_name\<close> has a null byte in it
  (\<^verbatim>\<open>resolve()\<close> raises \<^verbatim>\<open>ValueError\<close>; no such file can exist).
\<close>

definition nul_name :: string where
  "nul_name = ''bad'' @ [CHR 0x00] @ ''.yaml''"

definition person_schema :: json where
  "person_schema =
     JDict [(''type'', JStr ''object''),
            (''properties'', JDict [(''name'', JDict [(''type'', JStr ''string'')])])]"

definition demo_env :: environment where
  "demo_env =
     \<lparr>path_str = (\<lambda>p. p),
      cache_key = (\<lambda>p. if p = ''loop.yaml'' then Inl RuntimeError
                        else if p = nul_name then Inl ValueError
                        else Inr p),
      read_file = (\<lambda>p. if p = ''a.yaml'' then Parsed (JDict [(''$ref'', JStr ''a.yaml'')])
                        else if p = ''person.yaml'' then Parsed person_schema
                        else if p = ''broken.yaml'' then LoadFailure ''could not parse''
                        else if p = ''loop.yaml'' then LoadFailure ''too many levels of symbolic links''
                        else if p = nul_name then LoadFailure ''embedded null byte''
                        else FileNotFound),
      sibling = (\<lambda>current_path x. x)\<rparr>"

text \<open>The visualizer as \<^verbatim>\<open>__init__\<close> and the reset at the top of
  \<^verbatim>\<open>visualize_schema\<close> leave it.\<close>

definition fresh :: visualizer where
  "fresh = \<lparr>resolved_refs = {}, schema_cache = Map.empty, properties = [], printed = [],
            open_calls = []\<rparr>"

text \<open>A root document whose property \<^verbatim>\<open>owner\<close> refers to \<^verbatim>\<open>#/definitions/Person\<close> of the
  same document.\<close>

definition nested_ref_doc :: json where
  "nested_ref_doc =
     JDict [(''type'', JStr ''object''),
            (''properties'', JDict [(''owner'', JDict [(''$ref'', JStr ''#/definitions/Person'')])]),
            (''definitions'', JDict [(''Person'', person_schema)])]"

text \<open>A fragment with a remote \<^verbatim>\<open>$ref\<close> beside two combinators.\<close>

definition ref_and_combinators :: json where
  "ref_and_combinators =
     JDict [(''$ref'', JStr ''http://example.org/person''),
            (''allOf'', JList [person_schema]),
            (''anyOf'', JList [person_schema])]"

text \<open>An order: a required identifier, a nested object and an array of objects.\<close>

definition order_doc :: json where
  "order_doc =
     JDict [(''type'', JStr ''object''),
            (''required'', JList [JStr ''id'']),
            (''properties'',
             JDict [(''id'', JDict [(''type'', JStr ''string'')]),
                    (''customer'', person_schema),
                    (''lines'',
                     JDict [(''type'', JStr ''array''),
                            (''items'',
                             JDict [(''type'', JStr ''object''),
                                    (''properties'',
                                     JDict [(''sku'', JDict [(''type'', JStr ''string'')])])])])])]"




section \<open>Basic facts\<close>

text \<open>What is stored in a value is smaller than the value.\<close>

lemma size_stored: "map_of d k = Some v \<Longrightarrow> size v < size (JDict d)"
  by (induction d) (auto split: if_splits)

lemma size_element: "x \<in> set xs \<Longrightarrow> size x < size (JList xs)"
  by (induction xs) auto

lemma size_entry: "(k, x) \<in> set ps \<Longrightarrow> size x < size (JDict ps)"
  by (induction ps) auto

text \<open>The shape tests.\<close>

lemma as_dict_Some [simp]: "(as_dict v = Some d) = (v = JDict d)"
  by (auto simp: as_dict_def split: json.splits)

lemma as_dict_JDict [simp]: "as_dict (JDict d) = Some d"
  by (simp add: as_dict_def)

lemma as_list_Some [simp]: "(as_list v = Some xs) = (v = JList xs)"
  by (auto simp: as_list_def split: json.splits)

lemma as_list_JList [simp]: "as_list (JList xs) = Some xs"
  by (simp add: as_list_def)

lemma as_list_JDict [simp]: "as_list (JDict d) = None" "as_list (JStr s) = None"
  by (simp_all add: as_list_def)

text \<open>Truth values, joins and splits.\<close>

lemma empty_dict_falsy [simp]: "\<not> py_truthy (JDict [])"
  by (simp add: py_truthy_def)

lemma strings_of_map_JStr [simp]: "strings_of (map JStr ts) = Some ts"
  by (induction ts) simp_all


section \<open>The reference guard\<close>

lemma load_schema_resolved_refs:
  "load_schema env self file_path = (schema, self1) \<Longrightarrow> resolved_refs self1 = resolved_refs self"
  by (auto simp: load_schema_def Let_def split: sum.splits option.splits file_outcome.splits)

lemma resolve_target_resolved_refs:
  "resolve_target env self ref current_schema current_path = (result, self1) \<Longrightarrow>
   resolved_refs self1 = resolved_refs self"
  by (auto simp: resolve_target_def split: option.splits prod.splits sum.splits if_splits
           dest: load_schema_resolved_refs)

text \<open>
  Claim C9. For every call of \<^verbatim>\<open>resolve_reference\<close>, whatever the reference, the document
  and the state of the visualizer, and whether the call returns a fragment, a placeholder
  or raises, the set \<^verbatim>\<open>resolved_refs\<close> after the call is the set before it.
\<close>

theorem resolve_reference_releases_guard:
  "resolved_refs (snd (resolve_reference env self ref current_schema current_path)) =
   resolved_refs self"
proof (cases "hash_key ref")
  case None
  then show ?thesis by (simp add: resolve_reference_def)
next
  case (Some k)
  show ?thesis
  proof (cases "k \<in> resolved_refs self")
    case True
    with Some show ?thesis by (simp add: resolve_reference_def)
  next
    case False
    let ?self1 = "self\<lparr>resolved_refs := insert k (resolved_refs self)\<rparr>"
    obtain result self2 where
      r: "resolve_target env ?self1 ref current_schema current_path = (result, self2)"
      by (cases "resolve_target env ?self1 ref current_schema current_path")
    have "resolved_refs self2 = insert k (resolved_refs self)"
      using resolve_target_resolved_refs [OF r] by simp
    with Some False r show ?thesis by (simp add: resolve_reference_def)
  qed
qed

text \<open>The guard is released where the call raises (a reference that is the number 5)
  and where it returns a placeholder (an internal path that is not there).\<close>

theorem resolve_reference_releases_guard_witness:
  "resolve_reference demo_env fresh (JInt 5) (JDict []) ''root.yaml'' = (Inl AttributeError, fresh) \<and>
   resolved_refs (snd (resolve_reference demo_env fresh (JInt 5) (JDict []) ''root.yaml'')) = {} \<and>
   resolved_refs (snd (resolve_reference demo_env fresh (JStr ''#/a'') (JDict []) ''root.yaml'')) = {}"
  using resolve_reference_releases_guard [of demo_env fresh "JInt 5" "JDict []" "''root.yaml''"]
    resolve_reference_releases_guard [of demo_env fresh "JStr ''#/a''" "JDict []" "''root.yaml''"]
  by (simp add: resolve_reference_def resolve_target_def hash_key_def as_str_def fresh_def)



section \<open>Cardinality\<close>

text \<open>
  Claim C3. For a property fragment \<open>JDict d\<close>, a required list \<open>req\<close> and a property name
  \<open>p\<close>, \<^verbatim>\<open>get_cardinality\<close> returns: \<^verbatim>\<open>1..1\<close> for a non-array property named in the list and
  \<^verbatim>\<open>0..1\<close> for one that is not; \<^verbatim>\<open>0..1 (array)\<close> for an array property not in the list,
  whatever its \<^verbatim>\<open>minItems\<close> and \<^verbatim>\<open>maxItems\<close>; for an array property in the list with
  \<^verbatim>\<open>minItems\<close> \<open>m > 0\<close>, \<^verbatim>\<open>m..max\<close>, or \<^verbatim>\<open>m..*\<close> when \<^verbatim>\<open>maxItems\<close> is absent; and with
  \<^verbatim>\<open>minItems\<close> absent or 0, \<^verbatim>\<open>0..max\<close> or \<^verbatim>\<open>0..*\<close>.
\<close>

theorem get_cardinality_cases:
  "(map_of d ''type'' \<noteq> Some (JStr ''array'') \<and> JStr p \<in> set req \<longrightarrow>
      get_cardinality (JDict d) (JList req) p = Inr ''1..1'') \<and>
   (map_of d ''type'' \<noteq> Some (JStr ''array'') \<and> JStr p \<notin> set req \<longrightarrow>
      get_cardinality (JDict d) (JList req) p = Inr ''0..1'') \<and>
   (map_of d ''type'' = Some (JStr ''array'') \<and> JStr p \<notin> set req \<longrightarrow>
      get_cardinality (JDict d) (JList req) p = Inr ''0..1 (array)'') \<and>
   (map_of d ''type'' = Some (JStr ''array'') \<and> JStr p \<in> set req \<and>
    map_of d ''minItems'' = Some (JInt m) \<and> 0 < m \<and>
    map_of d ''maxItems'' = Some mx \<and> mx \<noteq> JNull \<longrightarrow>
      get_cardinality (JDict d) (JList req) p = Inr (str_int m @ ''..'' @ py_str mx)) \<and>
   (map_of d ''type'' = Some (JStr ''array'') \<and> JStr p \<in> set req \<and>
    map_of d ''minItems'' = Some (JInt m) \<and> 0 < m \<and>
    map_of d ''maxItems'' = None \<longrightarrow>
      get_cardinality (JDict d) (JList req) p = Inr (str_int m @ ''..*'')) \<and>
   (map_of d ''type'' = Some (JStr ''array'') \<and> JStr p \<in> set req \<and>
    (map_of d ''minItems'' = None \<or> map_of d ''minItems'' = Some (JInt 0)) \<and>
    map_of d ''maxItems'' = Some mx \<and> mx \<noteq> JNull \<longrightarrow>
      get_cardinality (JDict d) (JList req) p = Inr (''0..'' @ py_str mx)) \<and>
   (map_of d ''type'' = Some (JStr ''array'') \<and> JStr p \<in> set req \<and>
    (map_of d ''minItems'' = None \<or> map_of d ''minItems'' = Some (JInt 0)) \<and>
    map_of d ''maxItems'' = None \<longrightarrow>
      get_cardinality (JDict d) (JList req) p = Inr ''0..*'')"
  by (auto simp: get_cardinality_def py_contains_def py_get_def py_gt_zero_def py_str_def
           split: option.splits)

text \<open>One property for each of the seven cases.\<close>

theorem get_cardinality_cases_witness:
  "get_cardinality (JDict [(''type'', JStr ''string'')]) (JList [JStr ''id'']) ''id'' = Inr ''1..1'' \<and>
   get_cardinality (JDict [(''type'', JStr ''string'')]) (JList [JStr ''id'']) ''name'' = Inr ''0..1'' \<and>
   get_cardinality (JDict [(''type'', JStr ''array''), (''minItems'', JInt 1)]) (JList [JStr ''id''])
      ''tags'' = Inr ''0..1 (array)'' \<and>
   get_cardinality (JDict [(''type'', JStr ''array''), (''minItems'', JInt 2), (''maxItems'', JInt 15)])
      (JList [JStr ''tags'']) ''tags'' = Inr ''2..15'' \<and>
   get_cardinality (JDict [(''type'', JStr ''array''), (''minItems'', JInt 2)])
      (JList [JStr ''tags'']) ''tags'' = Inr ''2..*'' \<and>
   get_cardinality (JDict [(''type'', JStr ''array''), (''maxItems'', JInt 4)])
      (JList [JStr ''tags'']) ''tags'' = Inr ''0..4'' \<and>
   get_cardinality (JDict [(''type'', JStr ''array''), (''minItems'', JInt 0)])
      (JList [JStr ''tags'']) ''tags'' = Inr ''0..*''"
  using
    get_cardinality_cases [of "[(''type'', JStr ''string'')]" "''id''" "[JStr ''id'']" 0 JNull]
    get_cardinality_cases [of "[(''type'', JStr ''string'')]" "''name''" "[JStr ''id'']" 0 JNull]
    get_cardinality_cases [of "[(''type'', JStr ''array''), (''minItems'', JInt 1)]" "''tags''"
      "[JStr ''id'']" 0 JNull]
    get_cardinality_cases [of "[(''type'', JStr ''array''), (''minItems'', JInt 2), (''maxItems'', JInt 15)]"
      "''tags''" "[JStr ''tags'']" 2 "JInt 15"]
    get_cardinality_cases [of "[(''type'', JStr ''array''), (''minItems'', JInt 2)]"
      "''tags''" "[JStr ''tags'']" 2 JNull]
    get_cardinality_cases [of "[(''type'', JStr ''array''), (''maxItems'', JInt 4)]"
      "''tags''" "[JStr ''tags'']" 0 "JInt 4"]
    get_cardinality_cases [of "[(''type'', JStr ''array''), (''minItems'', JInt 0)]"
      "''tags''" "[JStr ''tags'']" 0 JNull]
  by (simp add: py_str_def str_int_def str_nat.simps digit_char_def)

section \<open>Files that cannot be loaded\<close>






section \<open>The document cache\<close>






section \<open>Type strings\<close>

text \<open>
  Claim C4 says that an array yields \<^verbatim>\<open>array<T>\<close> with \<open>T\<close> the type derived from its
  \<^verbatim>\<open>items\<close>, and \<^verbatim>\<open>array<any>\<close> when \<^verbatim>\<open>items\<close> is absent. With \<^verbatim>\<open>items: {}\<close> the items are
  present and their derived type is \<^verbatim>\<open>unknown\<close>, yet the result is \<^verbatim>\<open>array<any>\<close>: line 144
  tests the truth value of \<^verbatim>\<open>items\<close>, and an empty mapping is false.
\<close>

theorem empty_items_counterexample:
  "get_type_string (JDict []) = Inr (JStr ''unknown'') \<and>
   get_type_string (JDict [(''type'', JStr ''array''), (''items'', JDict [])]) =
     Inr (JStr ''array<any>'') \<and>
   get_type_string (JDict [(''type'', JStr ''array''), (''items'', JDict [])]) \<noteq>
     Inr (JStr ''array<unknown>'')"
  by (simp add: get_type_string.simps py_contains_def py_getitem_def py_get_def as_list_def
        py_truthy_def)

text \<open>
  Claim C4, amended. On a mapping fragment \<^verbatim>\<open>get_type_string\<close> decides in the order
  \<^verbatim>\<open>type\<close>, \<^verbatim>\<open>enum\<close>, combinator (\<^verbatim>\<open>oneOf\<close>, then \<^verbatim>\<open>anyOf\<close>, then \<^verbatim>\<open>allOf\<close>), \<^verbatim>\<open>$ref\<close>,
  \<^verbatim>\<open>unknown\<close>. A list of type names is joined with \<^verbatim>\<open> | \<close>; \<^verbatim>\<open>array\<close> yields
  \<^verbatim>\<open>array<any>\<close> when \<^verbatim>\<open>items\<close> is absent or has a false truth value (empty mapping, empty
  list, null, ...) and \<^verbatim>\<open>array<T>\<close> otherwise, \<open>T\<close> being the string of the type derived from
  \<^verbatim>\<open>items\<close>; \<^verbatim>\<open>object\<close> yields \<^verbatim>\<open>object\<close>; any other type name yields itself; an \<^verbatim>\<open>enum\<close>
  list of at most 3 values is written out and a longer one counted; a \<^verbatim>\<open>$ref\<close> yields
  \<^verbatim>\<open>ref(token)\<close>. The function has neither the visualizer nor the file system among its
  arguments: it resolves nothing.
\<close>

theorem get_type_string_cases:
  "(map_of d ''type'' = Some (JList (map JStr ts)) \<longrightarrow>
      get_type_string (JDict d) = Inr (JStr (join '' | '' ts))) \<and>
   (map_of d ''type'' = Some (JStr ''array'') \<and> map_of d ''items'' = None \<longrightarrow>
      get_type_string (JDict d) = Inr (JStr ''array<any>'')) \<and>
   (map_of d ''type'' = Some (JStr ''array'') \<and> map_of d ''items'' = Some items \<and>
    \<not> py_truthy items \<longrightarrow>
      get_type_string (JDict d) = Inr (JStr ''array<any>'')) \<and>
   (map_of d ''type'' = Some (JStr ''array'') \<and> map_of d ''items'' = Some items \<and>
    py_truthy items \<and> get_type_string items = Inr t \<longrightarrow>
      get_type_string (JDict d) = Inr (JStr (''array<'' @ py_str t @ ''>''))) \<and>
   (map_of d ''type'' = Some (JStr ''object'') \<longrightarrow>
      get_type_string (JDict d) = Inr (JStr ''object'')) \<and>
   (map_of d ''type'' = Some (JStr s) \<and> s \<noteq> ''array'' \<longrightarrow>
      get_type_string (JDict d) = Inr (JStr s)) \<and>
   (map_of d ''type'' = None \<and> map_of d ''enum'' = Some (JList vs) \<and> length vs \<le> 3 \<longrightarrow>
      get_type_string (JDict d) = Inr (JStr (''enum('' @ join '', '' (map py_str vs) @ '')''))) \<and>
   (map_of d ''type'' = None \<and> map_of d ''enum'' = Some (JList vs) \<and> 3 < length vs \<longrightarrow>
      get_type_string (JDict d) = Inr (JStr (''enum('' @ str_nat (length vs) @ '' values)''))) \<and>
   (map_of d ''type'' = None \<and> map_of d ''enum'' = None \<and> map_of d ''oneOf'' \<noteq> None \<longrightarrow>
      get_type_string (JDict d) = Inr (JStr ''oneOf'')) \<and>
   (map_of d ''type'' = None \<and> map_of d ''enum'' = None \<and> map_of d ''oneOf'' = None \<and>
    map_of d ''anyOf'' \<noteq> None \<longrightarrow>
      get_type_string (JDict d) = Inr (JStr ''anyOf'')) \<and>
   (map_of d ''type'' = None \<and> map_of d ''enum'' = None \<and> map_of d ''oneOf'' = None \<and>
    map_of d ''anyOf'' = None \<and> map_of d ''allOf'' \<noteq> None \<longrightarrow>
      get_type_string (JDict d) = Inr (JStr ''allOf'')) \<and>
   (map_of d ''type'' = None \<and> map_of d ''enum'' = None \<and> map_of d ''oneOf'' = None \<and>
    map_of d ''anyOf'' = None \<and> map_of d ''allOf'' = None \<and> map_of d ''$ref'' = Some r \<longrightarrow>
      get_type_string (JDict d) = Inr (JStr (''ref('' @ py_str r @ '')''))) \<and>
   (map_of d ''type'' = None \<and> map_of d ''enum'' = None \<and> map_of d ''oneOf'' = None \<and>
    map_of d ''anyOf'' = None \<and> map_of d ''allOf'' = None \<and> map_of d ''$ref'' = None \<longrightarrow>
      get_type_string (JDict d) = Inr (JStr ''unknown''))"
  by (intro conjI impI; (elim conjE)?)
     (simp_all add: get_type_string.simps [of "JDict d"] py_contains_def py_getitem_def
        py_get_def as_list_def py_join_def enum_string_def py_len_def py_iter_def)


text \<open>One fragment for each case.\<close>

theorem get_type_string_cases_witness:
  "get_type_string (JDict [(''type'', JList [JStr ''string'', JStr ''null''])]) =
     Inr (JStr ''string | null'') \<and>
   get_type_string (JDict [(''type'', JStr ''array'')]) = Inr (JStr ''array<any>'') \<and>
   get_type_string (JDict [(''type'', JStr ''array''), (''items'', JDict [])]) =
     Inr (JStr ''array<any>'') \<and>
   get_type_string (JDict [(''type'', JStr ''array''),
                           (''items'', JDict [(''type'', JStr ''string'')])]) =
     Inr (JStr ''array<string>'') \<and>
   get_type_string (JDict [(''type'', JStr ''object'')]) = Inr (JStr ''object'') \<and>
   get_type_string (JDict [(''type'', JStr ''integer''), (''enum'', JList [JInt 1])]) =
     Inr (JStr ''integer'') \<and>
   get_type_string (JDict [(''enum'', JList [JStr ''a'', JStr ''b'', JInt 3])]) =
     Inr (JStr ''enum(a, b, 3)'') \<and>
   get_type_string (JDict [(''enum'', JList [JStr ''a'', JStr ''b'', JStr ''c'', JStr ''d''])]) =
     Inr (JStr ''enum(4 values)'') \<and>
   get_type_string (JDict [(''allOf'', JList []), (''oneOf'', JList [])]) = Inr (JStr ''oneOf'') \<and>
   get_type_string (JDict [(''allOf'', JList []), (''anyOf'', JList [])]) = Inr (JStr ''anyOf'') \<and>
   get_type_string (JDict [(''$ref'', JStr ''#/a''), (''allOf'', JList [])]) = Inr (JStr ''allOf'') \<and>
   get_type_string (JDict [(''$ref'', JStr ''person.yaml'')]) = Inr (JStr ''ref(person.yaml)'') \<and>
   get_type_string (JDict [(''description'', JStr ''free'')]) = Inr (JStr ''unknown'')"
proof -
  have string: "get_type_string (JDict [(''type'', JStr ''string'')]) = Inr (JStr ''string'')"
    using get_type_string_cases [where d = "[(''type'', JStr ''string'')]" and s = "''string''"]
    by simp
  show ?thesis
    using
      get_type_string_cases [where d = "[(''type'', JList [JStr ''string'', JStr ''null''])]"
        and ts = "[''string'', ''null'']"]
      get_type_string_cases [where d = "[(''type'', JStr ''array'')]"]
      get_type_string_cases [where d = "[(''type'', JStr ''array''), (''items'', JDict [])]"
        and items = "JDict []"]
      get_type_string_cases [where d = "[(''type'', JStr ''array''),
          (''items'', JDict [(''type'', JStr ''string'')])]"
        and items = "JDict [(''type'', JStr ''string'')]" and t = "JStr ''string''"]
      get_type_string_cases [where d = "[(''type'', JStr ''object'')]"]
      get_type_string_cases [where d = "[(''type'', JStr ''integer''), (''enum'', JList [JInt 1])]"
        and s = "''integer''"]
      get_type_string_cases [where d = "[(''enum'', JList [JStr ''a'', JStr ''b'', JInt 3])]"
        and vs = "[JStr ''a'', JStr ''b'', JInt 3]"]
      get_type_string_cases [where d = "[(''enum'', JList [JStr ''a'', JStr ''b'', JStr ''c'', JStr ''d''])]"
        and vs = "[JStr ''a'', JStr ''b'', JStr ''c'', JStr ''d'']"]
      get_type_string_cases [where d = "[(''allOf'', JList []), (''oneOf'', JList [])]"]
      get_type_string_cases [where d = "[(''allOf'', JList []), (''anyOf'', JList [])]"]
      get_type_string_cases [where d = "[(''$ref'', JStr ''#/a''), (''allOf'', JList [])]"]
      get_type_string_cases [where d = "[(''$ref'', JStr ''person.yaml'')]"
        and r = "JStr ''person.yaml''"]
      get_type_string_cases [where d = "[(''description'', JStr ''free'')]"]
      string
    by (simp add: py_str_def py_truthy_def str_int_def str_nat.simps digit_char_def)
qed

section \<open>Combinators\<close>

text \<open>The walk of \<^verbatim>\<open>person.yaml\<close>'s schema, at any depth bound of at least two: one row.\<close>

lemma name_row:
  "parse_schema (Suc (Suc n)) env self person_schema path req cur =
     Some (Inr (self\<lparr>properties := properties self @
        [\<lparr>sp_path = (if path \<noteq> [] then path else ''/''), sp_name = ''name'',
          sp_data_type = JStr ''string'', sp_cardinality = ''0..1'', sp_description = JStr []\<rparr>]\<rparr>))"
  by (simp add: person_schema_def parse_body_def parse_property_def py_contains_def py_get_def
      py_items_def is_object_like_def is_array_with_items_def get_cardinality_def
      get_type_string.simps py_getitem_def as_list_def Let_def)

text \<open>
  Claim C10 says that a fragment with more than one combinator key is walked through the
  branches of the first of them. When the fragment also has a \<^verbatim>\<open>$ref\<close>, line 181 takes it
  first and returns at line 184: no combinator is looked at. Here the \<^verbatim>\<open>allOf\<close> branch would
  give one row, and the walk gives none.
\<close>

theorem ref_beside_combinators_counterexample:
  "parse_schema 3 demo_env fresh ref_and_combinators [] (JList []) ''root.yaml'' = Some (Inr fresh) \<and>
   for_each (\<lambda>self1 sub_schema. parse_schema 2 demo_env self1 sub_schema [] (JList []) ''root.yaml'')
     [person_schema] fresh =
     Some (Inr (fresh\<lparr>properties :=
        [\<lparr>sp_path = ''/'', sp_name = ''name'', sp_data_type = JStr ''string'',
          sp_cardinality = ''0..1'', sp_description = JStr []\<rparr>]\<rparr>))"
proof -
  have "parse_schema 3 demo_env fresh ref_and_combinators [] (JList []) ''root.yaml'' = Some (Inr fresh)"
    by (simp add: eval_nat_numeral ref_and_combinators_def parse_body_def parse_resolved_def
        py_contains_def py_getitem_def resolve_reference_def resolve_target_def hash_key_def
        as_str_def startswith_def external_placeholder_def fresh_def first_combinator.simps
        is_object_like_def is_array_with_items_def py_get_def)
  moreover have "parse_schema 2 demo_env fresh person_schema [] (JList []) ''root.yaml'' =
     Some (Inr (fresh\<lparr>properties :=
        [\<lparr>sp_path = ''/'', sp_name = ''name'', sp_data_type = JStr ''string'',
          sp_cardinality = ''0..1'', sp_description = JStr []\<rparr>]\<rparr>))"
    using name_row [where n = 0 and env = demo_env and self = fresh and path = "[]"]
    by (simp add: eval_nat_numeral fresh_def)
  ultimately show ?thesis by simp
qed

text \<open>
  Claim C10, amended. For a fragment with no \<^verbatim>\<open>$ref\<close> key, \<^verbatim>\<open>parse_schema\<close> is the loop over
  the branches of the first key present among \<^verbatim>\<open>allOf\<close>, \<^verbatim>\<open>anyOf\<close>, \<^verbatim>\<open>oneOf\<close>, in that order,
  at the path that key gives, and nothing more: the result does not depend on what the
  other combinator keys of the fragment hold.
\<close>

theorem first_combinator_only:
  "(map_of d ''$ref'' = None \<and> map_of d ''allOf'' = Some (JList branches) \<longrightarrow>
      parse_schema (Suc n) env self (JDict d) path parent_required current_file =
      for_each (\<lambda>self1 sub_schema.
                  parse_schema n env self1 sub_schema path parent_required current_file)
        branches self) \<and>
   (map_of d ''$ref'' = None \<and> map_of d ''allOf'' = None \<and>
    map_of d ''anyOf'' = Some (JList branches) \<longrightarrow>
      parse_schema (Suc n) env self (JDict d) path parent_required current_file =
      for_each (\<lambda>self1 sub_schema.
                  parse_schema n env self1 sub_schema (path @ ''[or]/'') parent_required current_file)
        branches self) \<and>
   (map_of d ''$ref'' = None \<and> map_of d ''allOf'' = None \<and> map_of d ''anyOf'' = None \<and>
    map_of d ''oneOf'' = Some (JList branches) \<longrightarrow>
      parse_schema (Suc n) env self (JDict d) path parent_required current_file =
      for_each (\<lambda>self1 sub_schema.
                  parse_schema n env self1 sub_schema (path @ ''[xor]/'') parent_required current_file)
        branches self)"
  by (simp add: parse_body_def py_contains_def py_getitem_def py_iter_def sub_path_def)

text \<open>\<^verbatim>\<open>allOf\<close> wins over \<^verbatim>\<open>anyOf\<close> written before it, and \<^verbatim>\<open>anyOf\<close> over \<^verbatim>\<open>oneOf\<close>.\<close>

theorem first_combinator_only_witness:
  "parse_schema 3 demo_env fresh
     (JDict [(''anyOf'', JList [JDict [(''type'', JStr ''string'')]]), (''allOf'', JList [person_schema])])
     [] (JList []) ''root.yaml'' =
     Some (Inr (fresh\<lparr>properties :=
        [\<lparr>sp_path = ''/'', sp_name = ''name'', sp_data_type = JStr ''string'',
          sp_cardinality = ''0..1'', sp_description = JStr []\<rparr>]\<rparr>)) \<and>
   parse_schema 3 demo_env fresh
     (JDict [(''oneOf'', JList [person_schema]), (''anyOf'', JList [person_schema, person_schema])])
     [] (JList []) ''root.yaml'' =
     Some (Inr (fresh\<lparr>properties :=
        [\<lparr>sp_path = ''[or]/'', sp_name = ''name'', sp_data_type = JStr ''string'',
          sp_cardinality = ''0..1'', sp_description = JStr []\<rparr>,
         \<lparr>sp_path = ''[or]/'', sp_name = ''name'', sp_data_type = JStr ''string'',
          sp_cardinality = ''0..1'', sp_description = JStr []\<rparr>]\<rparr>))"
  using
    first_combinator_only [where d = "[(''anyOf'', JList [JDict [(''type'', JStr ''string'')]]),
        (''allOf'', JList [person_schema])]"
      and branches = "[person_schema]" and n = 2 and env = demo_env and self = fresh
      and path = "[]" and parent_required = "JList []" and current_file = "''root.yaml''"]
    first_combinator_only [where d = "[(''oneOf'', JList [person_schema]),
        (''anyOf'', JList [person_schema, person_schema])]"
      and branches = "[person_schema, person_schema]" and n = 2 and env = demo_env and self = fresh
      and path = "[]" and parent_required = "JList []" and current_file = "''root.yaml''"]
    name_row [where n = 0 and env = demo_env]
  by (simp add: eval_nat_numeral fresh_def)

section \<open>References in a run\<close>

text \<open>
  \<^verbatim>\<open>a.yaml\<close> refers to itself. With the file in the cache and its token not in the guard,
  the resolver returns the document of the file and, through its \<^verbatim>\<open>finally\<close>, the guard as it
  was: the token is taken out before the caller walks what was returned.
\<close>

lemma self_reference_resolves_to_itself:
  assumes "schema_cache self ''a.yaml'' = Some (JDict [(''$ref'', JStr ''a.yaml'')])"
    and "JStr ''a.yaml'' \<notin> resolved_refs self"
  shows "resolve_reference demo_env self (JStr ''a.yaml'') holder current_file =
           (Inr (JDict [(''$ref'', JStr ''a.yaml'')]),
            self\<lparr>resolved_refs := resolved_refs self\<rparr>)"
  using assms
  by (simp add: resolve_reference_def resolve_target_def hash_key_def as_str_def startswith_def
      load_schema_def demo_env_def nul_name_def)

lemma self_reference_walk:
  assumes "schema_cache self ''a.yaml'' = Some (JDict [(''$ref'', JStr ''a.yaml'')])"
    and "JStr ''a.yaml'' \<notin> resolved_refs self"
  shows "parse_schema n demo_env self (JDict [(''$ref'', JStr ''a.yaml'')]) path
           parent_required current_file = None"
  using assms
proof (induction n arbitrary: self)
  case 0
  show ?case by simp
next
  case (Suc n)
  let ?self1 = "self\<lparr>resolved_refs := resolved_refs self\<rparr>"
  have "parse_schema n demo_env ?self1 (JDict [(''$ref'', JStr ''a.yaml'')]) path
          parent_required current_file = None"
    using Suc.prems by (intro Suc.IH) simp_all
  then show ?case
    using self_reference_resolves_to_itself [OF Suc.prems]
    by (simp add: parse_body_def parse_resolved_def py_contains_def py_getitem_def)
qed

text \<open>
  Claim C1 says that a chain of references that comes back to a token on the active path
  ends in the cycle placeholder. The run on \<^verbatim>\<open>a.yaml\<close> does not: whatever depth is allowed
  to it, \<^verbatim>\<open>visualize_schema\<close> does not return. (In Python the recursion ends in
  \<^verbatim>\<open>RecursionError\<close>, which \<^verbatim>\<open>main\<close> reports as an error.) The guard of line 68 never sees the
  token, because \<^verbatim>\<open>resolve_reference\<close> has discarded it at line 107 before
  \<^verbatim>\<open>parse_schema\<close> descends at line 183.
\<close>

theorem self_reference_never_returns:
  "visualize_schema n demo_env self ''a.yaml'' = None"
proof -
  let ?start = "self\<lparr>properties := [], resolved_refs := {}, schema_cache := Map.empty\<rparr>"
  obtain result self1 where loaded: "load_schema demo_env ?start ''a.yaml'' = (result, self1)"
    by (cases "load_schema demo_env ?start ''a.yaml''")
  then have "result = Inr (JDict [(''$ref'', JStr ''a.yaml'')])"
    and "schema_cache self1 ''a.yaml'' = Some (JDict [(''$ref'', JStr ''a.yaml'')])"
    and "JStr ''a.yaml'' \<notin> resolved_refs self1"
    by (auto simp: load_schema_def demo_env_def Let_def nul_name_def)
  with loaded show ?thesis
    by (simp add: visualize_schema_def self_reference_walk)
qed

text \<open>
  Claim C2 says that an internal reference is resolved by walking the document it was
  found in. \<^verbatim>\<open>resolve_reference\<close> walks the \<^verbatim>\<open>current_schema\<close> it is given, and every call
  site (lines 182, 224, 227) gives it the fragment that holds the \<^verbatim>\<open>$ref\<close>, not the
  document. In \<^verbatim>\<open>nested_ref_doc\<close> the path \<^verbatim>\<open>definitions/Person\<close> exists in the document and
  the resolver finds it when given the document; given the holder, as the walk does, it
  returns the \<^verbatim>\<open>unknown\<close> placeholder, and the run emits the row of \<^verbatim>\<open>owner\<close> and none for
  the property \<^verbatim>\<open>name\<close> of \<^verbatim>\<open>Person\<close>.
\<close>

theorem nested_internal_reference_unresolved:
  "walk_parts nested_ref_doc (split_on (CHR ''/'') ''definitions/Person'') = Some person_schema \<and>
   resolve_reference demo_env fresh (JStr ''#/definitions/Person'') nested_ref_doc ''root.yaml'' =
     (Inr person_schema, fresh) \<and>
   resolve_reference demo_env fresh (JStr ''#/definitions/Person'')
       (JDict [(''$ref'', JStr ''#/definitions/Person'')]) ''root.yaml'' =
     (Inr (unresolved_placeholder ''#/definitions/Person''), fresh) \<and>
   parse_schema (Suc (Suc (Suc n))) demo_env fresh nested_ref_doc [] (JList []) ''root.yaml'' =
     Some (Inr (fresh\<lparr>properties :=
        [\<lparr>sp_path = ''/'', sp_name = ''owner'', sp_data_type = JStr ''ref(#/definitions/Person)'',
          sp_cardinality = ''0..1'', sp_description = JStr []\<rparr>]\<rparr>))"
proof -
  have walk: "walk_parts nested_ref_doc (split_on (CHR ''/'') ''definitions/Person'') = Some person_schema"
    by (simp add: nested_ref_doc_def as_dict_def)
  have miss: "walk_parts (JDict [(''$ref'', JStr ''#/definitions/Person'')])
      (split_on (CHR ''/'') ''definitions/Person'') = None"
    by (simp add: as_dict_def)
  have whole: "resolve_reference demo_env fresh (JStr ''#/definitions/Person'') nested_ref_doc ''root.yaml'' =
     (Inr person_schema, fresh)"
    using walk by (simp add: resolve_reference_def resolve_target_def hash_key_def as_str_def
        startswith_def fresh_def)
  have holder: "resolve_reference demo_env self (JStr ''#/definitions/Person'')
       (JDict [(''$ref'', JStr ''#/definitions/Person'')]) ''root.yaml'' =
     (Inr (unresolved_placeholder ''#/definitions/Person''), self)" if "resolved_refs self = {}" for self
    using miss that by (simp add: resolve_reference_def resolve_target_def hash_key_def as_str_def
        startswith_def)
  have "parse_schema (Suc (Suc (Suc n))) demo_env fresh nested_ref_doc [] (JList []) ''root.yaml'' =
     Some (Inr (fresh\<lparr>properties :=
        [\<lparr>sp_path = ''/'', sp_name = ''owner'', sp_data_type = JStr ''ref(#/definitions/Person)'',
          sp_cardinality = ''0..1'', sp_description = JStr []\<rparr>]\<rparr>))"
    by (simp add: nested_ref_doc_def unresolved_placeholder_def parse_body_def parse_property_def parse_resolved_def
        py_contains_def py_get_def py_getitem_def py_items_def is_object_like_def
        is_array_with_items_def get_cardinality_def get_type_string.simps py_str_def
        holder fresh_def Let_def)
  with walk whole holder [of fresh] show ?thesis by (simp add: fresh_def)
qed

section \<open>The walk of a well-formed schema\<close>

text \<open>What a well-formed fragment guarantees, key by key.\<close>

lemma schema_ok_is_dict: "schema_ok c v \<Longrightarrow> \<exists>d. v = JDict d"
  by (simp add: schema_ok.simps [of c v] split: option.splits)

lemma schema_ok_no_ref: "schema_ok c (JDict d) \<Longrightarrow> map_of d ''$ref'' = None"
  by (simp add: schema_ok.simps [of c "JDict d"])

lemma schema_ok_items: "map_of d ''items'' = Some items \<Longrightarrow> schema_ok c (JDict d) \<Longrightarrow> schema_ok c items"
  by (simp add: schema_ok.simps [of c "JDict d"])

lemma schema_ok_properties:
  "map_of d ''properties'' = Some p \<Longrightarrow> schema_ok c (JDict d) \<Longrightarrow>
   \<exists>ps. p = JDict ps \<and> list_all (schema_ok c) (map snd ps)"
  by (cases "as_dict p") (simp_all add: schema_ok.simps [of c "JDict d"])

lemma schema_ok_required:
  "map_of d ''required'' = Some r \<Longrightarrow> schema_ok c (JDict d) \<Longrightarrow> \<exists>xs. r = JList xs"
  by (cases "as_list r") (simp_all add: schema_ok.simps [of c "JDict d"])

lemma schema_ok_type:
  "map_of d ''type'' = Some (JList ts) \<Longrightarrow> schema_ok c (JDict d) \<Longrightarrow> strings_of ts \<noteq> None"
  by (simp add: schema_ok.simps [of c "JDict d"])

lemma schema_ok_enum:
  "map_of d ''enum'' = Some e \<Longrightarrow> schema_ok c (JDict d) \<Longrightarrow> \<exists>xs. e = JList xs"
  by (cases "as_list e") (simp_all add: schema_ok.simps [of c "JDict d"])

lemma schema_ok_minItems:
  "map_of d ''minItems'' = Some m \<Longrightarrow> schema_ok c (JDict d) \<Longrightarrow> \<exists>i. m = JInt i"
  by (cases m) (simp_all add: schema_ok.simps [of c "JDict d"] is_int_def)

lemma schema_ok_allOf:
  "map_of d ''allOf'' = Some b \<Longrightarrow> schema_ok c (JDict d) \<Longrightarrow>
   \<exists>bs. b = JList bs \<and> list_all (schema_ok c) bs"
  by (cases "as_list b") (auto simp: schema_ok.simps [of c "JDict d"])

lemma schema_ok_anyOf:
  "map_of d ''anyOf'' = Some b \<Longrightarrow> schema_ok c (JDict d) \<Longrightarrow>
   \<exists>bs. b = JList bs \<and> list_all (schema_ok c) bs"
  by (cases "as_list b") (auto simp: schema_ok.simps [of c "JDict d"])

lemma schema_ok_oneOf:
  "map_of d ''oneOf'' = Some b \<Longrightarrow> schema_ok c (JDict d) \<Longrightarrow>
   \<exists>bs. b = JList bs \<and> list_all (schema_ok c) bs"
  by (cases "as_list b") (auto simp: schema_ok.simps [of c "JDict d"])

lemma schema_ok_plain:
  "schema_ok False (JDict d) \<Longrightarrow>
   map_of d ''allOf'' = None \<and> map_of d ''anyOf'' = None \<and> map_of d ''oneOf'' = None"
  by (cases "map_of d ''allOf''"; cases "map_of d ''anyOf''"; cases "map_of d ''oneOf''")
     (simp_all add: schema_ok.simps [of False "JDict d"])

text \<open>On a well-formed fragment neither deriver raises.\<close>

lemma type_string_ok: "schema_ok c v \<Longrightarrow> \<exists>t. get_type_string v = Inr t"
proof (induction v rule: measure_induct_rule [where f = size])
  case (less v)
  from less.prems obtain d where v: "v = JDict d" using schema_ok_is_dict by blast
  note ok = less.prems [unfolded v]
  show ?case
  proof (cases "map_of d ''type''")
    case None
    show ?thesis
    proof (cases "map_of d ''enum''")
      case None
      with \<open>map_of d ''type'' = None\<close> schema_ok_no_ref [OF ok] show ?thesis
        by (simp add: v get_type_string.simps [of "JDict d"] py_contains_def)
    next
      case (Some e)
      with schema_ok_enum [OF Some ok] \<open>map_of d ''type'' = None\<close> show ?thesis
        by (auto simp: v get_type_string.simps [of "JDict d"] py_contains_def py_getitem_def
            enum_string_def py_len_def py_iter_def)
    qed
  next
    case (Some t)
    show ?thesis
    proof (cases "as_list t")
      case (Some ts)
      then have t: "t = JList ts" by simp
      with schema_ok_type [OF _ ok, of ts] \<open>map_of d ''type'' = Some t\<close> show ?thesis
        by (auto simp: v get_type_string.simps [of "JDict d"] py_contains_def py_getitem_def
            py_join_def)
    next
      case None
      show ?thesis
      proof (cases "t = JStr ''array''")
        case False
        with None \<open>map_of d ''type'' = Some t\<close> show ?thesis
          by (simp add: v get_type_string.simps [of "JDict d"] py_contains_def py_getitem_def)
      next
        case True
        show ?thesis
        proof (cases "map_of d ''items''")
          case None
          with True \<open>map_of d ''type'' = Some t\<close> show ?thesis
            by (simp add: v get_type_string.simps [of "JDict d"] py_contains_def py_getitem_def
                py_get_def)
        next
          case (Some items)
          have "schema_ok c items" by (rule schema_ok_items [OF Some ok])
          moreover have "size items < size v" unfolding v by (rule size_stored [OF Some])
          ultimately obtain u where "get_type_string items = Inr u"
            using less.IH by blast
          with True Some \<open>map_of d ''type'' = Some t\<close> show ?thesis
            by (simp add: v get_type_string.simps [of "JDict d"] py_contains_def py_getitem_def
                py_get_def)
        qed
      qed
    qed
  qed
qed

lemma cardinality_ok:
  assumes "schema_ok c v"
  shows "\<exists>s. get_cardinality v (JList required) name = Inr s"
proof -
  from assms obtain d where v: "v = JDict d" using schema_ok_is_dict by blast
  note ok = assms [unfolded v]
  show ?thesis
  proof (cases "map_of d ''minItems''")
    case None
    then show ?thesis
      by (simp add: v get_cardinality_def py_contains_def py_get_def py_gt_zero_def
          split: option.splits)
  next
    case (Some m)
    with schema_ok_minItems [OF Some ok] show ?thesis
      by (auto simp: v get_cardinality_def py_contains_def py_get_def py_gt_zero_def
          split: option.splits)
  qed
qed

text \<open>A loop whose body appends rows appends them in the order of the list.\<close>

lemma for_each_rows:
  assumes "\<And>x self. x \<in> set xs \<Longrightarrow>
             body self x = Some (Inr (self\<lparr>properties := properties self @ f x\<rparr>))"
  shows "for_each body xs self =
           Some (Inr (self\<lparr>properties := properties self @ concat (map f xs)\<rparr>))"
  using assms by (induction xs arbitrary: self) simp_all

text \<open>One pass of the loop over the properties: the row of the property, then what the
  recursive call adds.\<close>

lemma is_object_like_dict [simp]: "is_object_like (JDict d) = Inr (object_like (JDict d))"
  by (cases "map_of d ''type''")
     (simp_all add: is_object_like_def object_like_def py_get_def py_contains_def)

lemma parse_property_rows:
  assumes ok: "schema_ok c v"
    and rec: "\<And>sub self p r. schema_ok c sub \<Longrightarrow> size sub \<le> size v \<Longrightarrow>
                rec self sub p r current_file =
                Some (Inr (self\<lparr>properties := properties self @ table_of sub p\<rparr>))"
  shows "parse_property rec env (JList required) path current_file self (name, v) =
           Some (Inr (self\<lparr>properties := properties self @
             (row_of (JList required) path name v #
              (if object_like v then table_of v (path @ ''/'' @ name)
               else (case object_items v of
                       None \<Rightarrow> []
                     | Some items \<Rightarrow> table_of items (path @ ''/'' @ name @ ''[]''))))\<rparr>))"
proof -
  from ok obtain d where v: "v = JDict d" using schema_ok_is_dict by blast
  note okd = ok [unfolded v]
  obtain t where t: "get_type_string (JDict d) = Inr t"
    using type_string_ok [OF okd] by blast
  obtain s where s: "get_cardinality (JDict d) (JList required) name = Inr s"
    using cardinality_ok [OF okd] by blast
  obtain descr where descr: "py_get (JDict d) ''description'' (JStr []) = Inr descr"
    by (cases "map_of d ''description''") (simp_all add: py_get_def)
  let ?self1 = "self\<lparr>properties := properties self @ [row_of (JList required) path name v]\<rparr>"
  have row: "row_of (JList required) path name v =
      \<lparr>sp_path = (if path \<noteq> [] then path else ''/''), sp_name = name, sp_data_type = t,
       sp_cardinality = s, sp_description = descr\<rparr>"
    by (simp add: row_of_def v t s descr)
  have noref: "py_contains ''$ref'' (JDict d) = Inr False"
    using schema_ok_no_ref [OF okd] by (simp add: py_contains_def)
  show ?thesis
  proof (cases "object_like (JDict d)")
    case True
    have "rec ?self1 v (path @ ''/'' @ name) (JList []) current_file =
            Some (Inr (?self1\<lparr>properties := properties ?self1 @ table_of v (path @ ''/'' @ name)\<rparr>))"
      by (rule rec [OF ok]) simp
    with True show ?thesis
      by (simp add: parse_property_def v t s descr row [unfolded v] Let_def)
  next
    case False
    show ?thesis
    proof (cases "map_of d ''type'' = Some (JStr ''array'') \<and> map_of d ''items'' \<noteq> None")
      case array: False
      then have "is_array_with_items (JDict d) = Inr False"
        by (cases "map_of d ''type''") (auto simp: is_array_with_items_def py_get_def py_contains_def)
      moreover from array have "object_items (JDict d) = None"
        by (auto simp: object_items_def split: option.splits)
      ultimately show ?thesis using False noref
        by (simp add: parse_property_def v t s descr row [unfolded v] Let_def)
    next
      case array: True
      then obtain items where items: "map_of d ''items'' = Some items" by blast
      from array have test: "is_array_with_items (JDict d) = Inr True"
        by (simp add: is_array_with_items_def py_get_def py_contains_def)
      have oki: "schema_ok c items" by (rule schema_ok_items [OF items okd])
      then obtain di where di: "items = JDict di" using schema_ok_is_dict by blast
      have smaller: "size items \<le> size v" unfolding v using size_stored [OF items] by simp
      have get: "py_getitem (JDict d) ''items'' = Inr items"
        by (simp add: py_getitem_def items)
      show ?thesis
      proof (cases "object_like items")
        case True
        then have oi: "object_items (JDict d) = Some items"
          using array items by (simp add: object_items_def)
        have "rec ?self1 items (path @ ''/'' @ name @ ''[]'') (JList []) current_file =
            Some (Inr (?self1\<lparr>properties := properties ?self1 @
                         table_of items (path @ ''/'' @ name @ ''[]'')\<rparr>))"
          by (rule rec [OF oki smaller])
        with True False test get oi show ?thesis
          by (simp add: parse_property_def v t s descr row [unfolded v] Let_def di)
      next
        case no: False
        then have oi: "object_items (JDict d) = None"
          using array items by (simp add: object_items_def)
        have "py_contains ''$ref'' items = Inr False"
          using schema_ok_no_ref [OF oki [unfolded di]] by (simp add: py_contains_def di)
        with no False test get oi show ?thesis
          by (simp add: parse_property_def v t s descr row [unfolded v] Let_def di)
      qed
    qed
  qed
qed

text \<open>The body of \<^verbatim>\<open>parse_schema\<close> on a well-formed fragment, when the recursive calls on
  smaller fragments give their tables.\<close>

lemma parse_body_table:
  assumes ok: "schema_ok c schema"
    and rec: "\<And>sub self p r. schema_ok c sub \<Longrightarrow> size sub < size schema \<Longrightarrow>
                rec self sub p r current_file =
                Some (Inr (self\<lparr>properties := properties self @ table_of sub p\<rparr>))"
  shows "parse_body rec env self schema path parent_required current_file =
           Some (Inr (self\<lparr>properties := properties self @ table_of schema path\<rparr>))"
proof -
  from ok obtain d where schema: "schema = JDict d" using schema_ok_is_dict by blast
  note okd = ok [unfolded schema]
  have noref: "py_contains ''$ref'' (JDict d) = Inr False"
    using schema_ok_no_ref [OF okd] by (simp add: py_contains_def)
  have branches: "parse_body rec env self schema path parent_required current_file =
           Some (Inr (self\<lparr>properties := properties self @ table_of schema path\<rparr>))"
    if first: "first_combinator [''allOf'', ''anyOf'', ''oneOf''] (JDict d) = Inr (Some k)"
      and chosen: "chosen_branches (JDict d) = Some (k, bs)"
      and stored: "map_of d k = Some (JList bs)"
      and each: "list_all (schema_ok c) bs"
    for k bs
  proof -
    have "for_each (\<lambda>self1 sub_schema. rec self1 sub_schema (sub_path k path) parent_required current_file)
            bs self =
          Some (Inr (self\<lparr>properties := properties self @
                       concat (map (\<lambda>b. table_of b (sub_path k path)) bs)\<rparr>))"
    proof (rule for_each_rows)
      fix x self1
      assume x: "x \<in> set bs"
      with each have "schema_ok c x" by (simp add: list_all_iff)
      moreover have "size x < size schema"
        unfolding schema using size_stored [OF stored] size_element [OF x] by simp
      ultimately show "rec self1 x (sub_path k path) parent_required current_file =
          Some (Inr (self1\<lparr>properties := properties self1 @ table_of x (sub_path k path)\<rparr>))"
        by (rule rec)
    qed
    moreover have "table_of schema path = concat (map (\<lambda>b. table_of b (sub_path k path)) bs)"
      by (simp add: schema table_of.simps [of "JDict d" path] chosen)
    ultimately show ?thesis
      using noref first stored
      by (simp add: parse_body_def schema py_getitem_def py_iter_def)
  qed
  show ?thesis
  proof (cases "map_of d ''allOf''")
    case (Some b)
    then obtain bs where b: "b = JList bs" and each: "list_all (schema_ok c) bs"
      using schema_ok_allOf [OF Some okd] by blast
    show ?thesis
      by (rule branches [of "''allOf''" bs])
         (use Some b each in \<open>simp_all add: py_contains_def chosen_branches_def elements_def\<close>)
  next
    case allOf: None
    show ?thesis
    proof (cases "map_of d ''anyOf''")
      case (Some b)
      then obtain bs where b: "b = JList bs" and each: "list_all (schema_ok c) bs"
        using schema_ok_anyOf [OF Some okd] by blast
      show ?thesis
        by (rule branches [of "''anyOf''" bs])
           (use allOf Some b each in \<open>simp_all add: py_contains_def chosen_branches_def elements_def\<close>)
    next
      case anyOf: None
      show ?thesis
      proof (cases "map_of d ''oneOf''")
        case (Some b)
        then obtain bs where b: "b = JList bs" and each: "list_all (schema_ok c) bs"
          using schema_ok_oneOf [OF Some okd] by blast
        show ?thesis
          by (rule branches [of "''oneOf''" bs])
             (use allOf anyOf Some b each in
               \<open>simp_all add: py_contains_def chosen_branches_def elements_def\<close>)
      next
        case oneOf: None
        have first: "first_combinator [''allOf'', ''anyOf'', ''oneOf''] (JDict d) = Inr None"
          using allOf anyOf oneOf by (simp add: py_contains_def)
        have chosen: "chosen_branches (JDict d) = None"
          using allOf anyOf oneOf by (simp add: chosen_branches_def)
        show ?thesis
        proof (cases "object_like (JDict d)")
          case True
          obtain required where required: "py_get (JDict d) ''required'' (JList []) = Inr (JList required)"
            and required_of: "required_of (JDict d) = JList required"
          proof (cases "map_of d ''required''")
            case None
            then show ?thesis by (intro that [of "[]"]) (simp_all add: py_get_def required_of_def)
          next
            case (Some r)
            then obtain xs where "r = JList xs" using schema_ok_required [OF Some okd] by blast
            with Some show ?thesis by (intro that [of xs]) (simp_all add: py_get_def required_of_def)
          qed
          obtain ps where props: "py_get (JDict d) ''properties'' (JDict []) = Inr (JDict ps)"
            and declared: "declared (JDict d) = ps" and each: "\<forall>(k, v) \<in> set ps. schema_ok c v"
            and smaller: "\<forall>(k, v) \<in> set ps. size v < size schema"
          proof (cases "map_of d ''properties''")
            case None
            then show ?thesis by (intro that [of "[]"]) (simp_all add: py_get_def declared_def)
          next
            case (Some p)
            then obtain qs where p: "p = JDict qs" and all: "list_all (schema_ok c) (map snd qs)"
              using schema_ok_properties [OF Some okd] by blast
            have "size v < size schema" if "(k, v) \<in> set qs" for k v
              unfolding schema using size_stored [OF Some] size_entry [OF that] p by simp
            with Some p all show ?thesis
              by (intro that [of qs]) (auto simp: py_get_def declared_def list_all_iff)
          qed
          let ?rows = "\<lambda>(name, v).
                      row_of (JList required) path name v #
                      (if object_like v then table_of v (path @ ''/'' @ name)
                       else (case object_items v of
                               None \<Rightarrow> []
                             | Some items \<Rightarrow> table_of items (path @ ''/'' @ name @ ''[]'')))"
          have "for_each (parse_property rec env (JList required) path current_file) ps self =
                Some (Inr (self\<lparr>properties := properties self @ concat (map ?rows ps)\<rparr>))"
          proof (rule for_each_rows)
            fix x self1
            assume x: "x \<in> set ps"
            obtain name v where nv: "x = (name, v)" by (cases x)
            from x nv each smaller have okv: "schema_ok c v" and sv: "size v < size schema" by auto
            have "parse_property rec env (JList required) path current_file self1 (name, v) =
                    Some (Inr (self1\<lparr>properties := properties self1 @ ?rows (name, v)\<rparr>))"
              unfolding prod.case
            proof (rule parse_property_rows [OF okv])
              fix sub self2 p r
              assume "schema_ok c sub" "size sub \<le> size v"
              with sv show "rec self2 sub p r current_file =
                  Some (Inr (self2\<lparr>properties := properties self2 @ table_of sub p\<rparr>))"
                by (intro rec) simp_all
            qed
            with nv show "parse_property rec env (JList required) path current_file self1 x =
                    Some (Inr (self1\<lparr>properties := properties self1 @ ?rows x\<rparr>))"
              by simp
          qed
          moreover have "table_of schema path = concat (map ?rows ps)"
            using True by (simp add: schema table_of.simps [of "JDict d" path] chosen declared required_of)
          ultimately show ?thesis
            using noref first True props required
            by (simp add: parse_body_def schema py_items_def)
        next
          case False
          show ?thesis
          proof (cases "object_items (JDict d)")
            case None
            have "table_of schema path = []"
              using False None by (simp add: schema table_of.simps [of "JDict d" path] chosen)
            moreover have "is_array_with_items (JDict d) = Inr False \<or>
                (\<exists>items. is_array_with_items (JDict d) = Inr True \<and>
                   py_getitem (JDict d) ''items'' = Inr items \<and> is_object_like items = Inr False)"
            proof (cases "map_of d ''type'' = Some (JStr ''array'') \<and> map_of d ''items'' \<noteq> None")
              case False
              then show ?thesis
                by (cases "map_of d ''type''")
                   (auto simp: is_array_with_items_def py_get_def py_contains_def)
            next
              case True
              then obtain items where items: "map_of d ''items'' = Some items" by blast
              then obtain di where di: "items = JDict di"
                using schema_ok_items [OF items okd] schema_ok_is_dict by blast
              from None True items have "\<not> object_like items"
                by (simp add: object_items_def split: if_splits)
              with True items di show ?thesis
                by (simp add: is_array_with_items_def py_get_def py_contains_def py_getitem_def)
            qed
            ultimately show ?thesis
              using noref first False
              by (auto simp: parse_body_def schema)
          next
            case (Some items)
            then have arr: "map_of d ''type'' = Some (JStr ''array'')" and items: "map_of d ''items'' = Some items"
              and ol: "object_like items"
              by (auto simp: object_items_def split: if_splits option.splits)
            have oki: "schema_ok c items" by (rule schema_ok_items [OF items okd])
            then obtain di where di: "items = JDict di" using schema_ok_is_dict by blast
            have "size items < size schema" unfolding schema by (rule size_stored [OF items])
            with oki have "rec self items (if path \<noteq> [] then path @ ''[]'' else ''[]'') (JList []) current_file =
                Some (Inr (self\<lparr>properties := properties self @
                   table_of items (if path \<noteq> [] then path @ ''[]'' else ''[]'')\<rparr>))"
              by (rule rec)
            moreover have "table_of schema path =
                table_of items (if path \<noteq> [] then path @ ''[]'' else ''[]'')"
              using False Some by (simp add: schema table_of.simps [of "JDict d" path] chosen)
            ultimately show ?thesis
              using noref first False arr items ol
              by (simp add: parse_body_def schema is_array_with_items_def py_get_def py_contains_def
                  py_getitem_def di)
          qed
        qed
      qed
    qed
  qed
qed

text \<open>By induction on the depth bound: enough depth gives the table.\<close>

lemma walk_table:
  "schema_ok c schema \<Longrightarrow> size schema \<le> n \<Longrightarrow>
   parse_schema n env self schema path parent_required current_file =
     Some (Inr (self\<lparr>properties := properties self @ table_of schema path\<rparr>))"
proof (induction n arbitrary: schema self path parent_required)
  case 0
  then obtain d where "schema = JDict d" using schema_ok_is_dict by blast
  with 0 show ?case by simp
next
  case (Suc n)
  have "parse_body (parse_schema n env) env self schema path parent_required current_file =
     Some (Inr (self\<lparr>properties := properties self @ table_of schema path\<rparr>))"
  proof (rule parse_body_table [OF Suc.prems(1)])
    fix sub self1 p r
    assume "schema_ok c sub" "size sub < size schema"
    with Suc.prems(2) show "parse_schema n env self1 sub p r current_file =
        Some (Inr (self1\<lparr>properties := properties self1 @ table_of sub p\<rparr>))"
      by (intro Suc.IH) simp_all
  qed
  then show ?case by simp
qed

section \<open>Schemas without references\<close>

text \<open>The two recursive definitions, as equations for a mapping: they unfold a given
  document and nothing under a binder.\<close>

lemma table_of_JDict:
  "table_of (JDict d) path =
     (case chosen_branches (JDict d) of
        Some (combine_key, branches) \<Rightarrow>
          concat (map (\<lambda>branch. table_of branch (sub_path combine_key path)) branches)
      | None \<Rightarrow>
          if object_like (JDict d) then
            concat (map (\<lambda>(name, v).
                      row_of (required_of (JDict d)) path name v #
                      (if object_like v then table_of v (path @ ''/'' @ name)
                       else (case object_items v of
                               None \<Rightarrow> []
                             | Some items \<Rightarrow> table_of items (path @ ''/'' @ name @ ''[]''))))
                    (declared (JDict d)))
          else
            (case object_items (JDict d) of
               None \<Rightarrow> []
             | Some items \<Rightarrow> table_of items (if path \<noteq> [] then path @ ''[]'' else ''[]'')))"
  by (rule table_of.simps)

lemma declared_everywhere_JDict:
  "declared_everywhere (JDict d) =
     concat (map (\<lambda>(name, v). name # declared_everywhere v) (declared (JDict d))) @
     (case items_of (JDict d) of
        None \<Rightarrow> []
      | Some items \<Rightarrow> declared_everywhere items)"
  by (rule declared_everywhere.simps)

text \<open>
  Claim C5 says that a schema without \<^verbatim>\<open>$ref\<close> and combinators gives one row for each
  property declared at every nesting level reachable through \<^verbatim>\<open>properties\<close> and \<^verbatim>\<open>items\<close>.
  In \<^verbatim>\<open>matrix_doc\<close> the property \<^verbatim>\<open>x\<close> is declared under \<^verbatim>\<open>properties\<close>, \<^verbatim>\<open>items\<close>, \<^verbatim>\<open>items\<close>,
  \<^verbatim>\<open>properties\<close>; the walk, at any depth bound (1000 is Python's own), gives the row of \<^verbatim>\<open>matrix\<close> and stops: lines 219
  to 225 enter the items of an array property only when the items are object-like (or a
  reference), and the items of \<^verbatim>\<open>matrix\<close> are an array.
\<close>

lemma matrix_walk:
  "parse_schema (Suc n) demo_env fresh matrix_doc [] (JList []) ''root.yaml'' =
     Some (Inr (fresh\<lparr>properties :=
        [\<lparr>sp_path = ''/'', sp_name = ''matrix'', sp_data_type = JStr ''array<array<object>>'',
          sp_cardinality = ''0..1 (array)'', sp_description = JStr []\<rparr>]\<rparr>))"
  by (simp add: matrix_doc_def parse_body_def parse_property_def py_contains_def py_get_def
      py_getitem_def py_items_def is_array_with_items_def object_like_def
      get_cardinality_def get_type_string.simps py_truthy_def py_str_def fresh_def Let_def)

theorem nested_array_counterexample:
  "declared_everywhere matrix_doc = [''matrix'', ''x''] \<and>
   parse_schema 1000 demo_env fresh matrix_doc [] (JList []) ''root.yaml'' =
     Some (Inr (fresh\<lparr>properties :=
        [\<lparr>sp_path = ''/'', sp_name = ''matrix'', sp_data_type = JStr ''array<array<object>>'',
          sp_cardinality = ''0..1 (array)'', sp_description = JStr []\<rparr>]\<rparr>))"
proof -
  have "declared_everywhere matrix_doc = [''matrix'', ''x'']"
    by (simp add: matrix_doc_def declared_everywhere_JDict declared_def items_of_def)
  moreover have "(1000::nat) = Suc 999" by simp
  ultimately show ?thesis using matrix_walk [of 999] by simp
qed

text \<open>
  Claim C5, amended. For a well-formed schema with no \<^verbatim>\<open>$ref\<close> and no combinator, and a depth
  bound of at least the size of the schema, \<^verbatim>\<open>parse_schema\<close> returns, and what it has
  appended is \<open>table_of\<close>: one row for each declared property, in the document's key order,
  of every object-like fragment it enters, each row followed by the rows below it. The
  fragments it enters are the root, an object-like property, the object-like items of an
  array property, and the object-like items of a root array; it does not enter items
  that are themselves arrays. Nothing else of the visualizer changes.
\<close>

theorem plain_schema_table:
  assumes "schema_ok False schema" and "size schema \<le> n"
  shows "parse_schema n env self schema path parent_required current_file =
           Some (Inr (self\<lparr>properties := properties self @ table_of schema path\<rparr>))"
  using assms by (rule walk_table)

text \<open>The five rows of \<^verbatim>\<open>order_doc\<close>, nested object and array of objects included.\<close>

theorem plain_schema_table_witness:
  "parse_schema 50 demo_env fresh order_doc [] (JList []) ''root.yaml'' =
     Some (Inr (fresh\<lparr>properties :=
       [\<lparr>sp_path = ''/'', sp_name = ''id'', sp_data_type = JStr ''string'',
          sp_cardinality = ''1..1'', sp_description = JStr []\<rparr>,
        \<lparr>sp_path = ''/'', sp_name = ''customer'', sp_data_type = JStr ''object'',
          sp_cardinality = ''0..1'', sp_description = JStr []\<rparr>,
        \<lparr>sp_path = ''/customer'', sp_name = ''name'', sp_data_type = JStr ''string'',
          sp_cardinality = ''0..1'', sp_description = JStr []\<rparr>,
        \<lparr>sp_path = ''/'', sp_name = ''lines'', sp_data_type = JStr ''array<object>'',
          sp_cardinality = ''0..1 (array)'', sp_description = JStr []\<rparr>,
        \<lparr>sp_path = ''/lines[]'', sp_name = ''sku'', sp_data_type = JStr ''string'',
          sp_cardinality = ''0..1'', sp_description = JStr []\<rparr>]\<rparr>))"
proof -
  have ok: "schema_ok False order_doc"
    by (simp add: order_doc_def person_schema_def schema_ok.simps is_int_def)
  have small: "size order_doc \<le> 50"
    by (simp add: order_doc_def person_schema_def)
  have table: "table_of order_doc [] =
       [\<lparr>sp_path = ''/'', sp_name = ''id'', sp_data_type = JStr ''string'',
          sp_cardinality = ''1..1'', sp_description = JStr []\<rparr>,
        \<lparr>sp_path = ''/'', sp_name = ''customer'', sp_data_type = JStr ''object'',
          sp_cardinality = ''0..1'', sp_description = JStr []\<rparr>,
        \<lparr>sp_path = ''/customer'', sp_name = ''name'', sp_data_type = JStr ''string'',
          sp_cardinality = ''0..1'', sp_description = JStr []\<rparr>,
        \<lparr>sp_path = ''/'', sp_name = ''lines'', sp_data_type = JStr ''array<object>'',
          sp_cardinality = ''0..1 (array)'', sp_description = JStr []\<rparr>,
        \<lparr>sp_path = ''/lines[]'', sp_name = ''sku'', sp_data_type = JStr ''string'',
          sp_cardinality = ''0..1'', sp_description = JStr []\<rparr>]"
    by (simp add: order_doc_def person_schema_def table_of_JDict chosen_branches_def
        object_like_def object_items_def declared_def required_of_def row_of_def
        get_type_string.simps get_cardinality_def py_contains_def py_get_def py_getitem_def
        py_truthy_def py_str_def)
  show ?thesis
    using plain_schema_table [OF ok small, of demo_env fresh "[]" "JList []" "''root.yaml''"] table
    by (simp add: fresh_def)
qed

section \<open>Exceptions\<close>

















lemma at_rest_update [simp]:
  "at_rest env (self\<lparr>properties := rows\<rparr>) = at_rest env self"
  "at_rest env (self\<lparr>printed := lines\<rparr>) = at_rest env self"
  "at_rest env (self\<lparr>open_calls := paths\<rparr>) = at_rest env self"
  by (simp_all add: at_rest_def cache_agrees_def)












text \<open>A well-formed schema without references is well formed in this sense too, through
  as many levels as its size.\<close>

lemma schema_ok_fragment_ok:
  assumes ok: "schema_ok c (JDict d)"
    and below: "\<And>x. schema_ok c x \<Longrightarrow> size x < size (JDict d) \<Longrightarrow> P x"
  shows "fragment_ok P env cur (JDict d)"
proof -
  have noref: "map_of d ''$ref'' = None" by (rule schema_ok_no_ref [OF ok])
  have branches: "case map_of d k of
                    None \<Rightarrow> True
                  | Some b \<Rightarrow> (case as_list b of None \<Rightarrow> False | Some bs \<Rightarrow> list_all P bs)"
    if k: "k = ''allOf'' \<or> k = ''anyOf'' \<or> k = ''oneOf''" for k
  proof (cases "map_of d k")
    case None
    then show ?thesis by simp
  next
    case (Some b)
    from k Some obtain bs where b: "b = JList bs" and each: "list_all (schema_ok c) bs"
      using schema_ok_allOf [OF _ ok] schema_ok_anyOf [OF _ ok] schema_ok_oneOf [OF _ ok]
      by blast
    have "P x" if "x \<in> set bs" for x
    proof (rule below)
      from each that show "schema_ok c x" by (simp add: list_all_iff)
      from size_stored [OF Some] size_element [OF that] b
      show "size x < size (JDict d)" by simp
    qed
    with Some b show ?thesis by (simp add: list_all_iff)
  qed
  have props: "case map_of d ''properties'' of
                 None \<Rightarrow> True
               | Some p \<Rightarrow> (case as_dict p of None \<Rightarrow> False
                             | Some ps \<Rightarrow> list_all P (map snd ps))"
  proof (cases "map_of d ''properties''")
    case None
    then show ?thesis by simp
  next
    case (Some p)
    then obtain ps where p: "p = JDict ps" and each: "list_all (schema_ok c) (map snd ps)"
      using schema_ok_properties [OF Some ok] by blast
    have "P v" if "(name, v) \<in> set ps" for name v
    proof (rule below)
      from each that show "schema_ok c v" by (force simp: list_all_iff)
      from size_stored [OF Some] size_entry [OF that] p
      show "size v < size (JDict d)" by simp
    qed
    with Some p show ?thesis by (auto simp: list_all_iff)
  qed
  have items: "case map_of d ''items'' of None \<Rightarrow> True | Some items \<Rightarrow> P items"
  proof (cases "map_of d ''items''")
    case None
    then show ?thesis by simp
  next
    case (Some items)
    have "P items"
      by (rule below [OF schema_ok_items [OF Some ok] size_stored [OF Some]])
    with Some show ?thesis by simp
  qed
  have required: "case map_of d ''required'' of None \<Rightarrow> True | Some r \<Rightarrow> as_list r \<noteq> None"
    using ok by (simp add: schema_ok.simps [of c "JDict d"])
  have types: "case map_of d ''type'' of
                 None \<Rightarrow> True
               | Some t \<Rightarrow> (case as_list t of None \<Rightarrow> True | Some ts \<Rightarrow> strings_of ts \<noteq> None)"
    using ok by (simp add: schema_ok.simps [of c "JDict d"])
  have enum: "case map_of d ''enum'' of None \<Rightarrow> True | Some e \<Rightarrow> as_list e \<noteq> None"
    using ok by (simp add: schema_ok.simps [of c "JDict d"])
  have minItems: "case map_of d ''minItems'' of None \<Rightarrow> True | Some m \<Rightarrow> is_int m"
    using ok by (simp add: schema_ok.simps [of c "JDict d"])
  show ?thesis
    unfolding fragment_ok_def
    using noref branches [of "''allOf''"] branches [of "''anyOf''"] branches [of "''oneOf''"]
      props items required types enum minItems
    by simp
qed

lemma schema_ok_well_formed:
  "schema_ok c schema \<Longrightarrow> size schema \<le> k \<Longrightarrow> well_formed k env cur schema"
proof (induction k arbitrary: schema)
  case 0
  then obtain d where "schema = JDict d" using schema_ok_is_dict by blast
  with 0 show ?case by simp
next
  case (Suc k)
  from Suc.prems(1) obtain d where schema: "schema = JDict d" using schema_ok_is_dict by blast
  have "fragment_ok (well_formed k env cur) env cur (JDict d)"
  proof (rule schema_ok_fragment_ok)
    show "schema_ok c (JDict d)" using Suc.prems(1) schema by simp
    fix x
    assume "schema_ok c x" and "size x < size (JDict d)"
    with Suc.prems(2) schema show "well_formed k env cur x" by (intro Suc.IH) simp_all
  qed
  with schema show ?case by simp
qed




section \<open>The resolver on its own\<close>

text \<open>
  For an internal token not in the guard, \<^verbatim>\<open>resolve_reference\<close> returns what the walk of
  the \<^verbatim>\<open>current_schema\<close> it is given reaches, or the \<^verbatim>\<open>unknown\<close> placeholder when a key of the
  path is not there, and leaves the visualizer as it was.
\<close>

theorem internal_reference_walks_current_schema:
  assumes "startswith r ''#/''" and "JStr r \<notin> resolved_refs self"
  shows "resolve_reference env self (JStr r) current_schema current_path =
           (Inr (case walk_parts current_schema (split_on (CHR ''/'') (drop 2 r)) of
                   None \<Rightarrow> unresolved_placeholder r
                 | Some result \<Rightarrow> result),
            self)"
  using assms
  by (simp add: resolve_reference_def resolve_target_def hash_key_def as_str_def
      split: option.splits)

text \<open>Given the whole of \<^verbatim>\<open>nested_ref_doc\<close>, a path that is there and one that is not.\<close>

theorem internal_reference_walks_current_schema_witness:
  "resolve_reference demo_env fresh (JStr ''#/definitions/Person'') nested_ref_doc ''root.yaml'' =
     (Inr person_schema, fresh) \<and>
   resolve_reference demo_env fresh (JStr ''#/definitions/Animal'') nested_ref_doc ''root.yaml'' =
     (Inr (unresolved_placeholder ''#/definitions/Animal''), fresh)"
proof -
  have a: "startswith ''#/definitions/Person'' ''#/''" and b: "startswith ''#/definitions/Animal'' ''#/''"
    by (simp_all add: startswith_def)
  have c: "JStr r \<notin> resolved_refs fresh" for r by (simp add: fresh_def)
  show ?thesis
    using internal_reference_walks_current_schema [OF a c, of demo_env nested_ref_doc "''root.yaml''"]
      internal_reference_walks_current_schema [OF b c, of demo_env nested_ref_doc "''root.yaml''"]
    by (simp add: nested_ref_doc_def)
qed

text \<open>
  A token that starts with \<^verbatim>\<open>http\<close> resolves to the \<^verbatim>\<open>external\<close> placeholder that names it;
  the visualizer is unchanged, so no file is opened and nothing is cached.
\<close>

theorem remote_reference_is_not_fetched:
  assumes "startswith r ''http''" and "\<not> startswith r ''#/''" and "JStr r \<notin> resolved_refs self"
  shows "resolve_reference env self (JStr r) current_schema current_path =
           (Inr (external_placeholder r), self)"
  using assms
  by (simp add: resolve_reference_def resolve_target_def hash_key_def as_str_def)

text \<open>An \<^verbatim>\<open>https\<close> address.\<close>

theorem remote_reference_is_not_fetched_witness:
  "resolve_reference demo_env fresh (JStr ''https://example.org/person.yaml'') (JDict []) ''root.yaml'' =
     (Inr (external_placeholder ''https://example.org/person.yaml''), fresh) \<and>
   open_calls (snd (resolve_reference demo_env fresh (JStr ''https://example.org/person.yaml'')
                      (JDict []) ''root.yaml'')) = []"
proof -
  have a: "startswith ''https://example.org/person.yaml'' ''http''"
    and b: "\<not> startswith ''https://example.org/person.yaml'' ''#/''"
    by (simp_all add: startswith_def)
  have c: "JStr r \<notin> resolved_refs fresh" for r by (simp add: fresh_def)
  show ?thesis
    using remote_reference_is_not_fetched [OF a b c, of demo_env "JDict []" "''root.yaml''"]
    by (simp add: fresh_def)
qed

end
